theory Spec2Isabelle
  imports Main "HOL-Library.AList" "HOL-Library.Sublist"
begin

section \<open>Item documents of the dnd5e system: usage resolution, scaling, indices\<close>

text \<open>
  This theory embeds the parts of \<^verbatim>\<open>module/documents/item.mjs\<close> (class \<^verbatim>\<open>Item5e\<close>) that
  resolve one use of an item, scale damage formulas, pick the critical threshold and index
  the advancements of an item. Conventions of the embedding:
  \<^item> JavaScript numbers stored in documents (levels, quantities, uses, thresholds) are
    integers, type \<open>int\<close>; \<^verbatim>\<open>Infinity\<close> has a constructor of its own where the source uses it.
  \<^item> A field that the source reads somewhere through \<^verbatim>\<open>??\<close>, \<^verbatim>\<open>?.\<close>, \<^verbatim>\<open>||\<close> or a truthiness test
    is an \<open>option\<close> (\<open>None\<close> is \<^verbatim>\<open>null\<close>/\<^verbatim>\<open>undefined\<close>), and dereferencing it unguarded when
    it is absent raises; a field that is never read through a guard is taken to be
    present, as the data templates of the system make it.
  \<^item> A string tested only for truthiness is a \<open>string\<close> whose empty value also stands
    for \<^verbatim>\<open>null\<close>.
  \<^item> In-place mutation of an array is returned as the new contents of the array.
  \<^item> A \<^verbatim>\<open>TypeError\<close> raised by the source on a missing object is a value of the result:
    \<open>Inl TypeError\<close>, or \<open>Raise TypeError\<close> in the outcome of a usage step.
  \<^item> Classes of the Foundry core (\<^verbatim>\<open>Roll\<close>, \<^verbatim>\<open>Die\<close>, string collation) are parameters.
\<close>

subsection \<open>JavaScript helpers\<close>

text \<open>\<^verbatim>\<open>Array.prototype.join\<close> on an array of strings.\<close>

fun join :: "string \<Rightarrow> string list \<Rightarrow> string" where
  "join sep [] = []"
| "join sep [x] = x"
| "join sep (x # y # ys) = x @ sep @ join sep (y # ys)"

text \<open>The decimal rendering of a number in a template literal.\<close>

fun string_of_nat :: "nat \<Rightarrow> string" where
  "string_of_nat n =
     (if n < 10 then [''0123456789'' ! n]
      else string_of_nat (n div 10) @ [''0123456789'' ! (n mod 10)])"

declare string_of_nat.simps [simp del]

definition string_of_int :: "int \<Rightarrow> string" where
  "string_of_int i = (if i < 0 then ''-'' @ string_of_nat (nat (- i)) else string_of_nat (nat i))"

text \<open>
  \<^verbatim>\<open>parts[0] = v\<close>: the first element is replaced; on an empty array JavaScript
  extends the array to hold it.
\<close>

fun set_first :: "'a \<Rightarrow> 'a list \<Rightarrow> 'a list" where
  "set_first v [] = [v]"
| "set_first v (x # xs) = v # xs"

text \<open>\<^verbatim>\<open>parts[0]\<close>: \<open>None\<close> is \<^verbatim>\<open>undefined\<close>, read from an empty array.\<close>

fun first :: "'a list \<Rightarrow> 'a option" where
  "first [] = None"
| "first (x # xs) = Some x"

text \<open>A value interpolated into a template literal; \<^verbatim>\<open>undefined\<close> prints as its name.\<close>

fun interpolate :: "string option \<Rightarrow> string" where
  "interpolate None = ''undefined''"
| "interpolate (Some s) = s"

subsection \<open>The dice roll collaborator\<close>

text \<open>
  A \<^verbatim>\<open>Roll\<close> of the Foundry core is its list of terms. A term is a \<^verbatim>\<open>Die\<close> with its number of
  dice, its faces and its modifiers, or any other term (operators, numbers, parentheses,
  other dice classes), kept by its text.
\<close>

datatype roll_term =
    Die (number: int) (faces: int) (modifiers: "string list")
  | OtherTerm string

type_synonym roll = "roll_term list"

text \<open>
  The core's operations used by the item: the constructor \<^verbatim>\<open>new Roll(formula, data)\<close>
  (\<open>None\<close> is an \<^verbatim>\<open>undefined\<close> formula), \<^verbatim>\<open>roll.alter(multiply)\<close> and the getter
  \<^verbatim>\<open>roll.formula\<close>, which renders the current terms.
\<close>

record 'd roll_api =
  Roll :: "string option \<Rightarrow> 'd \<Rightarrow> roll"
  alter :: "int \<Rightarrow> roll \<Rightarrow> roll"
  formula :: "roll \<Rightarrow> string"

subsection \<open>Damage scaling\<close>

text \<open>
  \<^verbatim>\<open>_scaleDamage(parts, scaling, times, rollData)\<close>. The array \<^verbatim>\<open>parts\<close> is changed in
  place and returned, so the result is both the returned array and the caller's array
  after the call. The parameter \<open>tms\<close> is the source's \<^verbatim>\<open>times\<close>.
\<close>

definition scaleDamage ::
  "'d roll_api \<Rightarrow> string list \<Rightarrow> string \<Rightarrow> int \<Rightarrow> 'd \<Rightarrow> string list" where
  "scaleDamage api parts scaling tms rollData =
     (if tms \<le> 0 then parts
      else
        let p0 = Roll api (first parts) rollData;
            s = alter api tms (Roll api (Some scaling) rollData)
        in (case (s, p0) of
              ([Die sn sf sm], Die dn df dm # rest) \<Rightarrow>
                if df = sf \<and> dm = sm
                then set_first (formula api (Die (dn + sn) df dm # rest)) parts
                else set_first (interpolate (first parts) @ '' + '' @ formula api s) parts
            | _ \<Rightarrow> set_first (interpolate (first parts) @ '' + '' @ formula api s) parts))"

text \<open>
  \<^verbatim>\<open>_scaleCantripDamage(parts, scale, level, rollData)\<close>: the pair of the returned array
  and of the caller's \<^verbatim>\<open>parts\<close> array after the call. With no addition the source returns
  a new empty array and leaves \<^verbatim>\<open>parts\<close> alone.
\<close>

definition cantripAdd :: "int \<Rightarrow> int" where
  "cantripAdd level = (level + 1) div 6"

definition scaleCantripDamage ::
  "'d roll_api \<Rightarrow> string list \<Rightarrow> string \<Rightarrow> int \<Rightarrow> 'd \<Rightarrow> string list \<times> string list" where
  "scaleCantripDamage api parts scale level rollData =
     (let add = cantripAdd level
      in if add = 0 then ([], parts)
         else let r = scaleDamage api parts (if scale \<noteq> [] then scale else join '' + '' parts)
                        add rollData
              in (r, r))"

text \<open>\<^verbatim>\<open>_scaleSpellDamage(parts, baseLevel, spellLevel, formula, rollData)\<close>.\<close>

definition upcastLevels :: "int \<Rightarrow> int \<Rightarrow> int" where
  "upcastLevels baseLevel spellLevel = max (spellLevel - baseLevel) 0"

definition scaleSpellDamage ::
  "'d roll_api \<Rightarrow> string list \<Rightarrow> int \<Rightarrow> int \<Rightarrow> string \<Rightarrow> 'd \<Rightarrow> string list" where
  "scaleSpellDamage api parts baseLevel spellLevel fml rollData =
     (if upcastLevels baseLevel spellLevel = 0 then parts
      else scaleDamage api parts fml (upcastLevels baseLevel spellLevel) rollData)"

subsection \<open>Documents read by the usage resolver\<close>

datatype js_error = TypeError

text \<open>A value read from the actor's data by path: absent, \<^verbatim>\<open>null\<close> or a number.\<close>

datatype jsval = Undefined | Null | Num int

text \<open>
  \<^verbatim>\<open>system.uses\<close>, \<^verbatim>\<open>system.recharge\<close>, \<^verbatim>\<open>system.consume\<close> and \<^verbatim>\<open>system.critical\<close> of an item.
  The maximum of the uses is \<^verbatim>\<open>null\<close>, the empty string of the data template (which
  \<^verbatim>\<open>prepareMaxUses\<close> leaves alone), or the prepared number.
\<close>

datatype max_uses = NoMax | EmptyMax | NumMax int

record uses_data =
  uses_value :: "int option"
  uses_max :: max_uses
  uses_per :: string

record recharge_data =
  recharge_value :: "int option"
  charged :: "bool option"

record consume_data =
  consume_type :: string
  consume_target :: string
  consume_amount :: "int option"

record critical_data =
  threshold :: "int option"

text \<open>
  An advancement of an item, with its \<^verbatim>\<open>levels\<close> array; a stored entry that is not an
  instance of \<^verbatim>\<open>Advancement\<close> carries nothing the item reads.
\<close>

record advancement =
  adv_id :: string
  adv_type :: string
  levels :: "int list"

datatype stored_advancement = IsAdvancement advancement | NotAdvancement

text \<open>The item being used (\<^verbatim>\<open>this\<close>), without its owner: the owner is passed beside it.\<close>

record item =
  item_type :: string
  actionType :: string
  recharge :: "recharge_data option"
  consume :: "consume_data option"
  uses :: "uses_data option"
  system_quantity :: "int option"
  critical :: "critical_data option"
  system_advancement :: "stored_advancement list option"

text \<open>
  Another item of the owner, found by \<^verbatim>\<open>this.actor.items.get(id)\<close>; its quantity is read
  without a guard.
\<close>

record other_item =
  other_quantity :: int
  other_uses :: "uses_data option"
  other_recharge :: "recharge_data option"
  other_critical :: "critical_data option"

text \<open>A class item of the owner, one of \<^verbatim>\<open>Object.values(this.actor.classes)\<close>.\<close>

record class_item =
  class_id :: string
  hitDice :: string
  class_levels :: int
  hitDiceUsed :: int

text \<open>
  The owning actor: \<open>property\<close> is \<^verbatim>\<open>foundry.utils.getProperty(actor.system, path)\<close>,
  \<open>spells\<close> gives the \<^verbatim>\<open>value\<close> of the slot pool stored under a key (\<open>None\<close>: no such pool),
  and the two thresholds are the flags \<^verbatim>\<open>flags.dnd5e.weaponCriticalThreshold\<close> and
  \<^verbatim>\<open>flags.dnd5e.spellCriticalThreshold\<close>.
\<close>

record actor =
  property :: "string \<Rightarrow> jsval"
  spells :: "string \<rightharpoonup> int option"
  items :: "string \<rightharpoonup> other_item"
  classes :: "class_item list"
  weaponCriticalThreshold :: "int option"
  spellCriticalThreshold :: "int option"

text \<open>
  What the host supplies: string collation with the default options and with
  \<^verbatim>\<open>("en", {numeric: true})\<close>, \<^verbatim>\<open>Number.isNumeric\<close> on strings, and the constant
  \<^verbatim>\<open>CONFIG.DND5E.maxLevel\<close>.
\<close>

record host =
  localeCompare :: "string \<Rightarrow> string \<Rightarrow> int"
  localeCompareNumeric :: "string \<Rightarrow> string \<Rightarrow> int"
  isNumeric :: "string \<Rightarrow> bool"
  maxLevel :: int

text \<open>
  \<^verbatim>\<open>Array.prototype.sort\<close> with a comparator is stable: an element stays behind the
  earlier elements it does not precede.
\<close>

fun insort_cmp :: "('a \<Rightarrow> 'a \<Rightarrow> int) \<Rightarrow> 'a \<Rightarrow> 'a list \<Rightarrow> 'a list" where
  "insort_cmp cmp x [] = [x]"
| "insort_cmp cmp x (y # ys) = (if cmp x y \<le> 0 then x # y # ys else y # insort_cmp cmp x ys)"

fun js_sort :: "('a \<Rightarrow> 'a \<Rightarrow> int) \<Rightarrow> 'a list \<Rightarrow> 'a list" where
  "js_sort cmp [] = []"
| "js_sort cmp (x # xs) = insort_cmp cmp x (js_sort cmp xs)"

subsection \<open>Usage configuration and update buckets\<close>

text \<open>\<^verbatim>\<open>consumeSpellLevel\<close> is \<^verbatim>\<open>null\<close>, a number, or a string such as \<^verbatim>\<open>"3"\<close> or \<^verbatim>\<open>"pact"\<close>.\<close>

datatype spell_level = NoLevel | NumLevel int | StrLevel string

record config =
  consumeQuantity :: bool
  consumeRecharge :: bool
  consumeResource :: bool
  consumeSpellSlot :: bool
  consumeSpellLevel :: spell_level
  consumeUsage :: bool

text \<open>
  An update object maps keys to values in insertion order; assigning to a key that is
  already there keeps its place (\<open>AList.update\<close>).
\<close>

datatype update_value = NumV int | BoolV bool | StrV string

type_synonym updates = "(string \<times> update_value) list"

record usage =
  itemUpdates :: updates
  actorUpdates :: updates
  resourceUpdates :: "updates list"

text \<open>The message key of the warning shown when a use is refused.\<close>

datatype warning =
    ItemNoUses
  | ConsumeWarningNoResource
  | ConsumeWarningNoSource
  | ConsumeWarningNoQuantity
  | SpellCastNoSlots

text \<open>
  The outcome of a step: a \<^verbatim>\<open>TypeError\<close> is thrown, \<^verbatim>\<open>false\<close> is returned after a warning,
  or the buckets are handed on (and, at the end, returned).
\<close>

datatype usage_result = Raise js_error | ReturnFalse warning | Updates usage

text \<open>A later step runs only when the step before it handed the buckets on.\<close>

fun and_then :: "usage_result \<Rightarrow> (usage \<Rightarrow> usage_result) \<Rightarrow> usage_result" where
  "and_then (Updates u) f = f u"
| "and_then (Raise e) f = Raise e"
| "and_then (ReturnFalse w) f = ReturnFalse w"

text \<open>Truthiness of a number that may be \<^verbatim>\<open>null\<close>, and \<^verbatim>\<open>x ?? d\<close>.\<close>

fun truthy :: "int option \<Rightarrow> bool" where
  "truthy None = False"
| "truthy (Some n) = (n \<noteq> 0)"

fun nullish :: "'a option \<Rightarrow> 'a \<Rightarrow> 'a" where
  "nullish None d = d"
| "nullish (Some x) d = x"

text \<open>Truthiness of \<^verbatim>\<open>uses.max\<close>, and the value of \<^verbatim>\<open>uses.max ?? 1\<close>.\<close>

fun max_truthy :: "max_uses \<Rightarrow> bool" where
  "max_truthy NoMax = False"
| "max_truthy EmptyMax = False"
| "max_truthy (NumMax n) = (n \<noteq> 0)"

fun max_or_one :: "max_uses \<Rightarrow> update_value" where
  "max_or_one NoMax = NumV 1"
| "max_or_one EmptyMax = StrV []"
| "max_or_one (NumMax n) = NumV n"

subsection \<open>Consuming a linked resource\<close>

text \<open>
  The local variable \<^verbatim>\<open>resource\<close> of \<^verbatim>\<open>_handleConsumeResource\<close>: a plain value (initially
  \<^verbatim>\<open>null\<close>; \<^verbatim>\<open>undefined\<close> when the lookup found nothing), another item, or the array of
  class items.
\<close>

datatype resource = Value jsval | OtherItem other_item | Classes "class_item list"

text \<open>
  The first \<^verbatim>\<open>switch\<close>: the resource, the amount and the quantity at hand (\<open>qty\<close>). Reading
  \<^verbatim>\<open>this.actor.system\<close>, \<^verbatim>\<open>this.actor.items\<close> or \<^verbatim>\<open>this.actor.classes\<close> of an item without owner
  throws, and so does \<^verbatim>\<open>uses.per\<close> on a target item without \<^verbatim>\<open>uses\<close>. A \<^verbatim>\<open>null\<close> quantity
  counts as 0 in the subtraction that follows.
\<close>

definition identifyResource ::
  "actor option \<Rightarrow> consume_data \<Rightarrow> js_error + (resource \<times> int \<times> int)" where
  "identifyResource owner c =
     (let amount = nullish (consume_amount c) 1;
          target = consume_target c
      in if consume_type c = ''attribute'' then
           (case owner of None \<Rightarrow> Inl TypeError
            | Some a \<Rightarrow>
                let resource = property a target
                in Inr (Value resource, amount, (case resource of Num n \<Rightarrow> n | _ \<Rightarrow> 0)))
         else if consume_type c = ''ammo'' \<or> consume_type c = ''material'' then
           (case owner of None \<Rightarrow> Inl TypeError
            | Some a \<Rightarrow>
                (case items a target of
                   None \<Rightarrow> Inr (Value Undefined, amount, 0)
                 | Some r \<Rightarrow> Inr (OtherItem r, amount, other_quantity r)))
         else if consume_type c = ''hitDice'' then
           (case owner of None \<Rightarrow> Inl TypeError
            | Some a \<Rightarrow>
                let denom = (if target \<noteq> ''smallest'' \<and> target \<noteq> ''largest''
                             then Some target else None);
                    resource = filter (\<lambda>cls. denom = None \<or> denom = Some [] \<or>
                                            Some (hitDice cls) = denom)
                                 (classes a);
                    qty = foldl (\<lambda>count cls. count + class_levels cls - hitDiceUsed cls)
                            0 resource
                in Inr (Classes resource, amount, qty))
         else if consume_type c = ''charges'' then
           (case owner of None \<Rightarrow> Inl TypeError
            | Some a \<Rightarrow>
                (case items a target of
                   None \<Rightarrow> Inr (Value Undefined, amount, 0)
                 | Some r \<Rightarrow>
                     (case other_uses r of None \<Rightarrow> Inl TypeError
                      | Some us \<Rightarrow>
                          if uses_per us \<noteq> [] \<and> max_truthy (uses_max us)
                          then Inr (OtherItem r, amount, nullish (uses_value us) 0)
                          else (case other_recharge r of
                                  None \<Rightarrow> Inr (OtherItem r, amount, 0)
                                | Some rc \<Rightarrow>
                                    if truthy (recharge_value rc)
                                    then Inr (OtherItem r, 1,
                                              if charged rc = Some True then 1 else 0)
                                    else Inr (OtherItem r, amount, 0)))))
         else Inr (Value Null, amount, 0))"

text \<open>
  The loop over the class items in the second \<^verbatim>\<open>switch\<close>: the classes charged, each with
  its \<^verbatim>\<open>delta\<close>, in the order of the pushes. \<^verbatim>\<open>toConsume\<close> starts as \<^verbatim>\<open>consume.amount\<close>.
\<close>

fun hitDiceDeltas :: "int \<Rightarrow> class_item list \<Rightarrow> (class_item \<times> int) list" where
  "hitDiceDeltas toConsume [] = []"
| "hitDiceDeltas toConsume (cls # rest) =
     (let available = (if toConsume > 0 then class_levels cls else 0) - hitDiceUsed cls;
          delta = (if toConsume > 0 then min toConsume available else max toConsume available)
      in if delta \<noteq> 0
         then (cls, delta) #
              (if toConsume - delta = 0 then [] else hitDiceDeltas (toConsume - delta) rest)
         else hitDiceDeltas toConsume rest)"

definition hitDiceUpdate :: "class_item \<times> int \<Rightarrow> updates" where
  "hitDiceUpdate p =
     [(''_id'', StrV (class_id (fst p))),
      (''system.hitDiceUsed'', NumV (hitDiceUsed (fst p) + snd p))]"

text \<open>The comparator of the hit dice sort; \<^verbatim>\<open>"largest"\<close> reverses it.\<close>

definition hitDiceOrder :: "host \<Rightarrow> string \<Rightarrow> class_item \<Rightarrow> class_item \<Rightarrow> int" where
  "hitDiceOrder h target lhs rhs =
     (let sort = localeCompareNumeric h (hitDice lhs) (hitDice rhs)
      in if target = ''largest'' then sort * (- 1) else sort)"

text \<open>
  The second \<^verbatim>\<open>switch\<close>: the updates, given what is left after the use. In the hit dice
  loop a \<^verbatim>\<open>null\<close> amount compares and subtracts as 0.
\<close>

definition defineUpdates ::
  "host \<Rightarrow> consume_data \<Rightarrow> resource \<Rightarrow> int \<Rightarrow> usage \<Rightarrow> usage" where
  "defineUpdates h c resource remaining u =
     (let target = consume_target c
      in if consume_type c = ''attribute'' then
           u\<lparr>actorUpdates := AList.update (''system.'' @ target) (NumV remaining) (actorUpdates u)\<rparr>
         else if consume_type c = ''ammo'' \<or> consume_type c = ''material'' then
           u\<lparr>resourceUpdates := resourceUpdates u @
                [ [(''_id'', StrV target), (''system.quantity'', NumV remaining)] ]\<rparr>
         else if consume_type c = ''hitDice'' then
           (case resource of
              Classes cs \<Rightarrow>
                let sorted = (if target = ''smallest'' \<or> target = ''largest''
                              then js_sort (hitDiceOrder h target) cs else cs);
                    toConsume = nullish (consume_amount c) 0
                in u\<lparr>resourceUpdates := resourceUpdates u @
                       map hitDiceUpdate (hitDiceDeltas toConsume sorted)\<rparr>
            | _ \<Rightarrow> u)
         else if consume_type c = ''charges'' then
           (case resource of
              OtherItem r \<Rightarrow>
                let per = (case other_uses r of None \<Rightarrow> [] | Some us \<Rightarrow> uses_per us);
                    mx = (case other_uses r of None \<Rightarrow> NoMax | Some us \<Rightarrow> uses_max us);
                    rv = (case other_recharge r of None \<Rightarrow> None | Some rc \<Rightarrow> recharge_value rc);
                    update = [(''_id'', StrV target)];
                    update' = (if per \<noteq> [] \<and> max_truthy mx
                               then AList.update ''system.uses.value'' (NumV remaining) update
                               else if truthy rv
                               then AList.update ''system.recharge.charged'' (BoolV False) update
                               else update)
                in u\<lparr>resourceUpdates := resourceUpdates u @ [update']\<rparr>
            | _ \<Rightarrow> u)
         else u)"

text \<open>
  \<^verbatim>\<open>_handleConsumeResource(itemUpdates, actorUpdates, resourceUpdates)\<close>: returning nothing
  is \<open>Updates\<close> with the buckets as the method left them.
\<close>

definition handleConsumeResource ::
  "host \<Rightarrow> item \<Rightarrow> actor option \<Rightarrow> usage \<Rightarrow> usage_result" where
  "handleConsumeResource h this owner u =
     (case consume this of
        None \<Rightarrow> Updates u
      | Some c \<Rightarrow>
          if consume_type c = [] then Updates u
          else if consume_target c = [] then ReturnFalse ConsumeWarningNoResource
          else
            (case identifyResource owner c of
               Inl e \<Rightarrow> Raise e
             | Inr (resource, amount, qty) \<Rightarrow>
                 if resource = Value Undefined then ReturnFalse ConsumeWarningNoSource
                 else
                   let remaining = qty - amount
                   in if remaining < 0 then ReturnFalse ConsumeWarningNoQuantity
                      else Updates (defineUpdates h c resource remaining u)))"

subsection \<open>Resolving one use\<close>

text \<open>The block \<^verbatim>\<open>// Consume Recharge\<close>.\<close>

definition consumeRechargeStep :: "item \<Rightarrow> usage \<Rightarrow> usage_result" where
  "consumeRechargeStep this u =
     (if (case recharge this of None \<Rightarrow> None | Some r \<Rightarrow> charged r) = Some False
      then ReturnFalse ItemNoUses
      else Updates (u\<lparr>itemUpdates :=
             AList.update ''system.recharge.charged'' (BoolV False) (itemUpdates u)\<rparr>))"

text \<open>
  The block \<^verbatim>\<open>// Consume Spell Slots\<close>: the truthiness of \<^verbatim>\<open>consumeSpellLevel\<close>, the key of the
  pool, the number of slots read (\<^verbatim>\<open>Number(level?.value ?? 0)\<close>), and the step.
\<close>

fun spellLevelTruthy :: "spell_level \<Rightarrow> bool" where
  "spellLevelTruthy NoLevel = False"
| "spellLevelTruthy (NumLevel n) = (n \<noteq> 0)"
| "spellLevelTruthy (StrLevel s) = (s \<noteq> [])"

fun spellLevelKey :: "host \<Rightarrow> spell_level \<Rightarrow> string" where
  "spellLevelKey h NoLevel = ''null''"
| "spellLevelKey h (NumLevel n) = ''spell'' @ string_of_int n"
| "spellLevelKey h (StrLevel s) = (if isNumeric h s then ''spell'' @ s else s)"

definition slotsAvailable :: "actor option \<Rightarrow> string \<Rightarrow> int" where
  "slotsAvailable owner key =
     (case owner of None \<Rightarrow> 0
      | Some a \<Rightarrow> (case spells a key of None \<Rightarrow> 0 | Some v \<Rightarrow> nullish v 0))"

definition consumeSpellSlotStep ::
  "host \<Rightarrow> actor option \<Rightarrow> spell_level \<Rightarrow> usage \<Rightarrow> usage_result" where
  "consumeSpellSlotStep h owner lvl u =
     (let key = spellLevelKey h lvl;
          slots = slotsAvailable owner key
      in if slots = 0 then ReturnFalse SpellCastNoSlots
         else Updates (u\<lparr>actorUpdates :=
                AList.update (''system.spells.'' @ key @ ''.value'') (NumV (max (slots - 1) 0))
                  (actorUpdates u)\<rparr>))"

text \<open>The block \<^verbatim>\<open>// Consume Limited Usage\<close>.\<close>

definition consumeUsageStep :: "item \<Rightarrow> bool \<Rightarrow> usage \<Rightarrow> usage_result" where
  "consumeUsageStep this consumeQty u =
     (let available = nullish (case uses this of None \<Rightarrow> None | Some us \<Rightarrow> uses_value us) 0;
          mx = (case uses this of None \<Rightarrow> NoMax | Some us \<Rightarrow> uses_max us);
          remaining = max (available - 1) 0;
          used1 = (available \<ge> 1);
          iu1 = (if used1 then AList.update ''system.uses.value'' (NumV remaining) (itemUpdates u)
                 else itemUpdates u);
          q = nullish (system_quantity this) 1;
          fallback = (consumeQty \<and> (\<not> used1 \<or> remaining = 0) \<and> q \<ge> 1);
          iu2 = (if fallback
                 then AList.update ''system.uses.value'' (max_or_one mx)
                        (AList.update ''system.quantity'' (NumV (max (q - 1) 0)) iu1)
                 else iu1);
          used = (used1 \<or> fallback)
      in if \<not> used then ReturnFalse ItemNoUses else Updates (u\<lparr>itemUpdates := iu2\<rparr>))"

text \<open>\<^verbatim>\<open>_getUsageUpdates(config)\<close>: the three empty buckets, then the four blocks in order.\<close>

definition emptyBuckets :: usage where
  "emptyBuckets = \<lparr>itemUpdates = [], actorUpdates = [], resourceUpdates = []\<rparr>"

definition getUsageUpdates :: "host \<Rightarrow> item \<Rightarrow> actor option \<Rightarrow> config \<Rightarrow> usage_result" where
  "getUsageUpdates h this owner cfg =
     and_then
       (and_then
          (and_then
             (if consumeRecharge cfg then consumeRechargeStep this emptyBuckets
              else Updates emptyBuckets)
             (\<lambda>u. if consumeResource cfg then handleConsumeResource h this owner u else Updates u))
          (\<lambda>u. if consumeSpellSlot cfg \<and> spellLevelTruthy (consumeSpellLevel cfg)
               then consumeSpellSlotStep h owner (consumeSpellLevel cfg) u else Updates u))
       (\<lambda>u. if consumeUsage cfg then consumeUsageStep this (consumeQuantity cfg) u else Updates u)"

subsection \<open>Critical threshold\<close>






subsection \<open>Advancement index\<close>

record advancement_index =
  byId :: "string \<rightharpoonup> advancement"
  byLevel :: "int \<rightharpoonup> advancement list"
  byType :: "string \<rightharpoonup> advancement list"
  needingConfiguration :: "advancement list"

text \<open>
  \<^verbatim>\<open>advancement.levels.forEach(l => this.advancement.byLevel[l].push(advancement))\<close>: a
  level without bucket makes \<^verbatim>\<open>push\<close> throw.
\<close>

fun pushLevels ::
  "advancement \<Rightarrow> int list \<Rightarrow> (int \<rightharpoonup> advancement list) \<Rightarrow> js_error + (int \<rightharpoonup> advancement list)" where
  "pushLevels a [] bl = Inr bl"
| "pushLevels a (l # ls) bl =
     (case bl l of
        None \<Rightarrow> Inl TypeError
      | Some xs \<Rightarrow> pushLevels a ls (bl(l \<mapsto> xs @ [a])))"

text \<open>The body of the loop over the stored advancements.\<close>

definition indexAdvancement ::
  "advancement_index \<Rightarrow> stored_advancement \<Rightarrow> js_error + advancement_index" where
  "indexAdvancement idx entry =
     (case entry of
        NotAdvancement \<Rightarrow> Inr idx
      | IsAdvancement a \<Rightarrow>
          (case pushLevels a (levels a) (byLevel idx) of
             Inl e \<Rightarrow> Inl e
           | Inr bl \<Rightarrow>
               Inr (idx\<lparr>byId := (byId idx)(adv_id a \<mapsto> a),
                        byType := (byType idx)(adv_type a \<mapsto>
                                     nullish (byType idx (adv_type a)) [] @ [a]),
                        byLevel := bl,
                        needingConfiguration :=
                          (if levels a = [] then needingConfiguration idx @ [a]
                           else needingConfiguration idx)\<rparr>)))"

fun indexAll ::
  "advancement_index \<Rightarrow> stored_advancement list \<Rightarrow> js_error + advancement_index" where
  "indexAll idx [] = Inr idx"
| "indexAll idx (entry # rest) =
     (case indexAdvancement idx entry of
        Inl e \<Rightarrow> Inl e
      | Inr idx' \<Rightarrow> indexAll idx' rest)"

text \<open>
  \<^verbatim>\<open>_prepareAdvancement()\<close>, returning \<^verbatim>\<open>this.advancement\<close>. The method
  \<^verbatim>\<open>sortingValueForLevel\<close> of the advancement classes is the parameter \<open>sortingValue\<close>.
\<close>

definition minAdvancementLevel :: "item \<Rightarrow> int" where
  "minAdvancementLevel this =
     (if item_type this = ''class'' \<or> item_type this = ''subclass'' then 1 else 0)"

definition prepareAdvancement ::
  "host \<Rightarrow> (advancement \<Rightarrow> int \<Rightarrow> string) \<Rightarrow> item \<Rightarrow> js_error + advancement_index" where
  "prepareAdvancement h sortingValue this =
     (let start = \<lparr>byId = Map.empty,
                   byLevel = (\<lambda>l. if minAdvancementLevel this \<le> l \<and> l \<le> maxLevel h
                                   then Some [] else None),
                   byType = Map.empty,
                   needingConfiguration = []\<rparr>
      in case indexAll start (nullish (system_advancement this) []) of
           Inl e \<Rightarrow> Inl e
         | Inr idx \<Rightarrow>
             Inr (idx\<lparr>byLevel := (\<lambda>lvl.
                    map_option
                      (js_sort (\<lambda>a b. localeCompare h (sortingValue a lvl) (sortingValue b lvl)))
                      (byLevel idx lvl))\<rparr>))"

text \<open>An advancement appears in the bucket \<^verbatim>\<open>byLevel[l]\<close>; a level without bucket holds none.\<close>

definition in_bucket :: "(int \<rightharpoonup> 'a list) \<Rightarrow> int \<Rightarrow> 'a \<Rightarrow> bool" where
  "in_bucket m l x = (case m l of None \<Rightarrow> False | Some xs \<Rightarrow> x \<in> set xs)"

subsection \<open>Small instances of the collaborators\<close>

text \<open>
  For evaluating the definitions on concrete documents: a roll whose formulas are either a
  single die \<^verbatim>\<open>NdF\<close> or an opaque term, and a host that compares hit dice by their number of
  faces, other strings character by character, takes digit strings for numeric and has
  20 levels.
\<close>

definition is_digit :: "char \<Rightarrow> bool" where
  "is_digit c = (c \<in> set ''0123456789'')"

definition nat_of_digits :: "string \<Rightarrow> nat" where
  "nat_of_digits s = foldl (\<lambda>n c. 10 * n + (of_char c - 48)) 0 s"

definition all_digits :: "string \<Rightarrow> bool" where
  "all_digits s = (s \<noteq> [] \<and> list_all is_digit s)"

definition plainRoll :: "string option \<Rightarrow> unit \<Rightarrow> roll" where
  "plainRoll f d =
     (case f of None \<Rightarrow> []
      | Some s \<Rightarrow>
          if s = [] then []
          else let n = takeWhile is_digit s; r = dropWhile is_digit s
               in if n \<noteq> [] \<and> r \<noteq> [] \<and> hd r = CHR ''d'' \<and> all_digits (tl r)
                  then [Die (int (nat_of_digits n)) (int (nat_of_digits (tl r))) []]
                  else [OtherTerm s])"

fun plainTermFormula :: "roll_term \<Rightarrow> string" where
  "plainTermFormula (Die n f m) = string_of_int n @ ''d'' @ string_of_int f @ concat m"
| "plainTermFormula (OtherTerm s) = s"

fun plainAlterTerm :: "int \<Rightarrow> roll_term \<Rightarrow> roll_term" where
  "plainAlterTerm k (Die n f m) = Die (n * k) f m"
| "plainAlterTerm k (OtherTerm s) = OtherTerm s"

definition plainDice :: "unit roll_api" where
  "plainDice = \<lparr>Roll = plainRoll, alter = (\<lambda>k. map (plainAlterTerm k)),
                formula = (\<lambda>ts. concat (map plainTermFormula ts))\<rparr>"

fun compareChars :: "string \<Rightarrow> string \<Rightarrow> int" where
  "compareChars [] [] = 0"
| "compareChars [] (b # bs) = - 1"
| "compareChars (a # as) [] = 1"
| "compareChars (a # as) (b # bs) =
     (if (of_char a :: nat) < of_char b then - 1
      else if (of_char b :: nat) < of_char a then 1
      else compareChars as bs)"

definition compareFaces :: "string \<Rightarrow> string \<Rightarrow> int" where
  "compareFaces x y = int (nat_of_digits (tl x)) - int (nat_of_digits (tl y))"

definition plainHost :: host where
  "plainHost = \<lparr>localeCompare = compareChars, localeCompareNumeric = compareFaces,
                isNumeric = all_digits, maxLevel = 20\<rparr>"

text \<open>
  Documents to evaluate on: an item and an actor with nothing set and a configuration
  that consumes nothing, then a spell and its caster, a wand with daily uses, a longbow
  and its archer, a feature paid in hit dice by a fighter and wizard (with an amount of
  3, and with the amount left at the \<^verbatim>\<open>null\<close> of the data template), and a class item with
  three stored advancements.
\<close>

definition blankItem :: item where
  "blankItem = \<lparr>item_type = ''feat'', actionType = [], recharge = None, consume = None,
                 uses = None, system_quantity = None, critical = None,
                 system_advancement = None\<rparr>"

definition blankActor :: actor where
  "blankActor = \<lparr>property = (\<lambda>path. Undefined), spells = Map.empty, items = Map.empty,
                  classes = [], weaponCriticalThreshold = None,
                  spellCriticalThreshold = None\<rparr>"

definition noConsumption :: config where
  "noConsumption = \<lparr>consumeQuantity = False, consumeRecharge = False, consumeResource = False,
                     consumeSpellSlot = False, consumeSpellLevel = NoLevel,
                     consumeUsage = False\<rparr>"

definition fireball :: item where
  "fireball = blankItem\<lparr>item_type := ''spell'', actionType := ''save''\<rparr>"

definition mage :: actor where
  "mage = blankActor\<lparr>spells := [''spell3'' \<mapsto> Some 2, ''pact'' \<mapsto> Some 0]\<rparr>"

definition wand :: item where
  "wand = blankItem\<lparr>item_type := ''consumable'',
            uses := Some \<lparr>uses_value = Some 0, uses_max = NumMax 3, uses_per = ''day''\<rparr>,
            system_quantity := Some 2\<rparr>"




definition fighter :: class_item where
  "fighter = \<lparr>class_id = ''fighter'', hitDice = ''d10'', class_levels = 4, hitDiceUsed = 1\<rparr>"

definition wizard :: class_item where
  "wizard = \<lparr>class_id = ''wizard'', hitDice = ''d6'', class_levels = 2, hitDiceUsed = 0\<rparr>"

definition veteran :: actor where
  "veteran = blankActor\<lparr>classes := [fighter, wizard]\<rparr>"

definition surge :: item where
  "surge = blankItem\<lparr>consume := Some \<lparr>consume_type = ''hitDice'', consume_target = ''smallest'',
                                         consume_amount = Some 3\<rparr>\<rparr>"

definition surgeDefault :: item where
  "surgeDefault = blankItem\<lparr>consume := Some \<lparr>consume_type = ''hitDice'',
                     consume_target = ''smallest'', consume_amount = None\<rparr>\<rparr>"

definition grantAt3And5 :: advancement where
  "grantAt3And5 = \<lparr>adv_id = ''a1'', adv_type = ''ItemGrant'', levels = [3, 5]\<rparr>"

definition unconfigured :: advancement where
  "unconfigured = \<lparr>adv_id = ''a2'', adv_type = ''ScaleValue'', levels = []\<rparr>"

definition scholar :: item where
  "scholar = blankItem\<lparr>item_type := ''class'',
               system_advancement :=
                 Some [IsAdvancement grantAt3And5, NotAdvancement, IsAdvancement unconfigured]\<rparr>"

section \<open>Damage scaling\<close>

text \<open>
  Claim C5. For every list of damage parts, scaling formula and count: a count of 0 or
  less returns the parts unchanged. A positive count multiplies the scaling formula by
  the count (\<^verbatim>\<open>alter\<close> on its roll); when the result is a single die term and the first
  term of the first part is a die with the same faces and modifiers, the numbers of dice
  are added and the first part is replaced by the formula of the merged roll; in every
  other case the first part gets \<^verbatim>\<open>" + "\<close> and the scaled formula appended. The other
  parts stay as they are.
\<close>

theorem scaleDamage_merge_or_append:
  "(tms \<le> 0 \<longrightarrow> scaleDamage api parts scaling tms d = parts) \<and>
   (0 < tms \<longrightarrow>
      alter api tms (Roll api (Some scaling) d) = [Die sn sf sm] \<longrightarrow>
      Roll api (first parts) d = Die dn sf sm # rest \<longrightarrow>
      scaleDamage api parts scaling tms d
        = set_first (formula api (Die (dn + sn) sf sm # rest)) parts) \<and>
   (0 < tms \<longrightarrow>
      \<not> (\<exists>sn sf sm dn rest.
           alter api tms (Roll api (Some scaling) d) = [Die sn sf sm] \<and>
           Roll api (first parts) d = Die dn sf sm # rest) \<longrightarrow>
      scaleDamage api parts scaling tms d
        = set_first (interpolate (first parts) @ '' + '' @
                     formula api (alter api tms (Roll api (Some scaling) d))) parts)"
  by (auto simp: scaleDamage_def Let_def split: list.splits roll_term.splits)

text \<open>The three cases of C5 on dice: no scaling, a merge into \<^verbatim>\<open>3d6\<close>, an appended term.\<close>

theorem scaleDamage_merge_or_append_witness:
  "(0::int) \<le> 0 \<and> scaleDamage plainDice [''1d6''] ''1d6'' 0 () = [''1d6''] \<and>
   (0::int) < 2 \<and>
   alter plainDice 2 (Roll plainDice (Some ''1d6'') ()) = [Die 2 6 []] \<and>
   Roll plainDice (first [''1d6'', ''4'']) () = [Die 1 6 []] \<and>
   scaleDamage plainDice [''1d6'', ''4''] ''1d6'' 2 () = [''3d6'', ''4''] \<and>
   \<not> (\<exists>sn sf sm dn rest.
         alter plainDice 2 (Roll plainDice (Some ''1d6'') ()) = [Die sn sf sm] \<and>
         Roll plainDice (first [''1d8'']) () = Die dn sf sm # rest) \<and>
   scaleDamage plainDice [''1d8''] ''1d6'' 2 () = [''1d8 + 2d6'']"
proof -
  have s: "alter plainDice 2 (Roll plainDice (Some ''1d6'') ()) = [Die 2 6 []]"
    by code_simp
  have p: "Roll plainDice (first [''1d6'', ''4'']) () = [Die 1 6 []]"
    by code_simp
  have q: "Roll plainDice (first [''1d8'']) () = [Die 1 8 []]"
    by code_simp
  have f3: "formula plainDice [Die (1 + 2) 6 []] = ''3d6''"
    by code_simp
  have f2: "formula plainDice [Die 2 6 []] = ''2d6''"
    by code_simp
  have no: "\<not> (\<exists>sn sf sm dn rest.
         alter plainDice 2 (Roll plainDice (Some ''1d6'') ()) = [Die sn sf sm] \<and>
         Roll plainDice (first [''1d8'']) () = Die dn sf sm # rest)"
    unfolding s q by simp
  note T = scaleDamage_merge_or_append
  have a: "scaleDamage plainDice [''1d6''] ''1d6'' 0 () = [''1d6'']"
    using T [of 0 plainDice "[''1d6'']" "''1d6''" "()"] by simp
  have b: "scaleDamage plainDice [''1d6'', ''4''] ''1d6'' 2 () = [''3d6'', ''4'']"
    using T [of 2 plainDice "[''1d6'', ''4'']" "''1d6''" "()" 2 6 "[]" 1 "[]"] s p f3 by simp
  have c: "scaleDamage plainDice [''1d8''] ''1d6'' 2 () = [''1d8 + 2d6'']"
    using T [of 2 plainDice "[''1d8'']" "''1d6''" "()"] no s f2 by simp
  show ?thesis using a b c s p no by simp
qed

text \<open>
  Claim C4. The number of upcast levels is the cast level minus the base level, and 0
  when that is negative; the parts are scaled by the formula that many times. Base
  level 3 cast at level 3 gives 0 levels and the parts unchanged; cast at level 5 gives
  2 levels and the scaling with a count of 2.
\<close>

theorem scaleSpellDamage_upcast:
  "upcastLevels b l = (if l \<le> b then 0 else l - b) \<and>
   upcastLevels 3 3 = 0 \<and> upcastLevels 3 5 = 2 \<and>
   scaleSpellDamage api parts 3 3 f d = parts \<and>
   scaleSpellDamage api parts 3 5 f d = scaleDamage api parts f 2 d \<and>
   (l \<le> b \<longrightarrow> scaleSpellDamage api parts b l f d = parts) \<and>
   (b < l \<longrightarrow> scaleSpellDamage api parts b l f d = scaleDamage api parts f (l - b) d)"
  by (auto simp: scaleSpellDamage_def upcastLevels_def)

text \<open>C4 on a spell of \<^verbatim>\<open>8d6\<close> scaling by \<^verbatim>\<open>1d6\<close> a level.\<close>

theorem scaleSpellDamage_upcast_witness:
  "(3::int) \<le> 3 \<and> scaleSpellDamage plainDice [''8d6''] 3 3 ''1d6'' () = [''8d6''] \<and>
   (3::int) < 5 \<and> scaleSpellDamage plainDice [''8d6''] 3 5 ''1d6'' () = [''10d6'']"
proof -
  have s: "scaleDamage plainDice [''8d6''] ''1d6'' (5 - 3) () = [''10d6'']"
    by code_simp
  show ?thesis
    using scaleSpellDamage_upcast [of 3 3 plainDice "[''8d6'']" "''1d6''" "()"]
      scaleSpellDamage_upcast [of 3 5 plainDice "[''8d6'']" "''1d6''" "()"] s
    by simp
qed

text \<open>
  Claim C3, as the code has it. The add-count of a cantrip is the level plus one, divided
  by 6 and rounded down: 1 at level 5, 0 at level 0. With an add-count of 0 the scaling
  is not applied and the caller's parts are left as they were; otherwise the parts are
  scaled add-count times by the scaling formula, or by the parts joined with \<^verbatim>\<open>" + "\<close>
  when there is no scaling formula.
\<close>

theorem scaleCantripDamage_add_count:
  "cantripAdd 5 = 1 \<and> cantripAdd 0 = 0 \<and>
   (cantripAdd level = n \<longleftrightarrow> 6 * n \<le> level + 1 \<and> level + 1 < 6 * n + 6) \<and>
   (cantripAdd level = 0 \<longrightarrow> snd (scaleCantripDamage api parts scale level d) = parts) \<and>
   (cantripAdd level \<noteq> 0 \<longrightarrow>
      snd (scaleCantripDamage api parts scale level d)
        = scaleDamage api parts (if scale \<noteq> [] then scale else join '' + '' parts)
            (cantripAdd level) d \<and>
      fst (scaleCantripDamage api parts scale level d)
        = snd (scaleCantripDamage api parts scale level d))"
  by (auto simp: scaleCantripDamage_def cantripAdd_def Let_def)

text \<open>C3 at level 4 (no scaling) and at level 11 (two more dice).\<close>

theorem scaleCantripDamage_add_count_witness:
  "cantripAdd 4 = 0 \<and> snd (scaleCantripDamage plainDice [''1d10''] [] 4 ()) = [''1d10''] \<and>
   cantripAdd 11 \<noteq> 0 \<and> snd (scaleCantripDamage plainDice [''1d10''] [] 11 ()) = [''3d10'']"
proof -
  have a: "cantripAdd 4 = 0" "cantripAdd 11 = 2"
    by (simp_all add: cantripAdd_def)
  have s: "scaleDamage plainDice [''1d10''] (join '' + '' [''1d10'']) 2 () = [''3d10'']"
    by code_simp
  show ?thesis
    using scaleCantripDamage_add_count [of 4 0 plainDice "[''1d10'']" "[]" "()"]
      scaleCantripDamage_add_count [of 11 2 plainDice "[''1d10'']" "[]" "()"] a s
    by simp
qed

text \<open>
  C3 as stated fails: the add-count at level 5 is not 5 divided by 6 rounded down, and at
  level 0 the array returned is empty, not the parts.
\<close>

theorem scaleCantripDamage_counterexample:
  "cantripAdd 5 \<noteq> 5 div 6 \<and>
   cantripAdd 0 = 0 \<and> fst (scaleCantripDamage plainDice [''1d10''] ''1d10'' 0 ()) \<noteq> [''1d10'']"
  by (simp add: scaleCantripDamage_def cantripAdd_def)

section \<open>Resolving one use\<close>

lemma and_then_Updates_iff:
  "and_then r f = Updates u \<longleftrightarrow> (\<exists>v. r = Updates v \<and> f v = Updates u)"
  by (cases r) auto

lemma and_then_Updates_id: "and_then r (\<lambda>u. Updates u) = r"
  by (cases r) auto

lemma and_then_ReturnFalse_iff:
  "and_then r f = ReturnFalse w \<longleftrightarrow>
     r = ReturnFalse w \<or> (\<exists>v. r = Updates v \<and> f v = ReturnFalse w)"
  by (cases r) auto

lemma consumeUsageStep_actorUpdates:
  "consumeUsageStep this q u = Updates v \<Longrightarrow>
     actorUpdates v = actorUpdates u \<and> resourceUpdates v = resourceUpdates u"
  by (auto simp: consumeUsageStep_def Let_def split: if_splits)

lemma consumeUsageStep_succeeds_indep:
  "consumeUsageStep this q u = Updates v \<Longrightarrow> \<exists>v'. consumeUsageStep this q u' = Updates v'"
  by (auto simp: consumeUsageStep_def Let_def split: if_splits)

lemma consumeSpellSlotStep_Updates:
  "consumeSpellSlotStep h owner lvl u = Updates v \<longleftrightarrow>
     slotsAvailable owner (spellLevelKey h lvl) \<noteq> 0 \<and>
     v = u\<lparr>actorUpdates :=
            AList.update (''system.spells.'' @ spellLevelKey h lvl @ ''.value'')
              (NumV (max (slotsAvailable owner (spellLevelKey h lvl) - 1) 0)) (actorUpdates u)\<rparr>"
  by (auto simp: consumeSpellSlotStep_def Let_def)


lemma getUsageUpdates_slot_off:
  "getUsageUpdates h this owner (cfg\<lparr>consumeSpellSlot := False\<rparr>) =
     and_then
       (and_then
          (if consumeRecharge cfg then consumeRechargeStep this emptyBuckets
           else Updates emptyBuckets)
          (\<lambda>u. if consumeResource cfg then handleConsumeResource h this owner u else Updates u))
       (\<lambda>u. if consumeUsage cfg then consumeUsageStep this (consumeQuantity cfg) u else Updates u)"
  by (simp add: getUsageUpdates_def and_then_Updates_id cong: if_cong)

lemma getUsageUpdates_Updates_iff:
  "getUsageUpdates h this owner cfg = Updates u \<longleftrightarrow>
     (\<exists>u1 u2 u3.
        (if consumeRecharge cfg then consumeRechargeStep this emptyBuckets
         else Updates emptyBuckets) = Updates u1 \<and>
        (if consumeResource cfg then handleConsumeResource h this owner u1
         else Updates u1) = Updates u2 \<and>
        (if consumeSpellSlot cfg \<and> spellLevelTruthy (consumeSpellLevel cfg)
         then consumeSpellSlotStep h owner (consumeSpellLevel cfg) u2 else Updates u2) = Updates u3 \<and>
        (if consumeUsage cfg then consumeUsageStep this (consumeQuantity cfg) u3
         else Updates u3) = Updates u)"
  unfolding getUsageUpdates_def and_then_Updates_iff by blast

lemma getUsageUpdates_slot_off_Updates_iff:
  "getUsageUpdates h this owner (cfg\<lparr>consumeSpellSlot := False\<rparr>) = Updates u \<longleftrightarrow>
     (\<exists>u1 u2.
        (if consumeRecharge cfg then consumeRechargeStep this emptyBuckets
         else Updates emptyBuckets) = Updates u1 \<and>
        (if consumeResource cfg then handleConsumeResource h this owner u1
         else Updates u1) = Updates u2 \<and>
        (if consumeUsage cfg then consumeUsageStep this (consumeQuantity cfg) u2
         else Updates u2) = Updates u)"
  unfolding getUsageUpdates_slot_off and_then_Updates_iff by blast

lemma usage_block_succeeds_indep:
  "(if b then consumeUsageStep this q u else Updates u) = Updates v \<Longrightarrow>
     \<exists>v'. (if b then consumeUsageStep this q u' else Updates u') = Updates v'"
  using consumeUsageStep_succeeds_indep [of this q u v u'] by (cases b) auto

text \<open>
  The outcome of the slot step in terms of the key computed for the level and of the
  number of slots read under it.
\<close>

lemma spell_slot_step_outcome:
  assumes slot: "consumeSpellSlot cfg" "spellLevelTruthy (consumeSpellLevel cfg)"
    and key: "key = spellLevelKey h (consumeSpellLevel cfg)"
    and n: "n = slotsAvailable owner key"
  shows "(n = 0 \<longrightarrow> (\<forall>u. getUsageUpdates h this owner cfg \<noteq> Updates u)) \<and>
         ((\<exists>u. getUsageUpdates h this owner cfg = Updates u) \<longleftrightarrow>
           n \<noteq> 0 \<and> (\<exists>u. getUsageUpdates h this owner (cfg\<lparr>consumeSpellSlot := False\<rparr>) = Updates u)) \<and>
         (getUsageUpdates h this owner cfg = Updates u \<longrightarrow>
           map_of (actorUpdates u) (''system.spells.'' @ key @ ''.value'')
             = Some (NumV (max (n - 1) 0))) \<and>
         (\<not> consumeRecharge cfg \<and> \<not> consumeResource cfg \<and> \<not> consumeUsage cfg \<longrightarrow>
           getUsageUpdates h this owner cfg =
             (if n = 0 then ReturnFalse SpellCastNoSlots
              else Updates (emptyBuckets\<lparr>actorUpdates :=
                     [(''system.spells.'' @ key @ ''.value'', NumV (max (n - 1) 0))]\<rparr>)))"
proof -
  have step: "\<And>u2 u3. consumeSpellSlotStep h owner (consumeSpellLevel cfg) u2 = Updates u3 \<longleftrightarrow>
      n \<noteq> 0 \<and> u3 = u2\<lparr>actorUpdates :=
            AList.update (''system.spells.'' @ key @ ''.value'')
              (NumV (max (n - 1) 0)) (actorUpdates u2)\<rparr>"
    using key n by (simp add: consumeSpellSlotStep_Updates)
  have full: "\<And>u. getUsageUpdates h this owner cfg = Updates u \<longleftrightarrow>
     (\<exists>u1 u2 u3.
        (if consumeRecharge cfg then consumeRechargeStep this emptyBuckets
         else Updates emptyBuckets) = Updates u1 \<and>
        (if consumeResource cfg then handleConsumeResource h this owner u1
         else Updates u1) = Updates u2 \<and>
        consumeSpellSlotStep h owner (consumeSpellLevel cfg) u2 = Updates u3 \<and>
        (if consumeUsage cfg then consumeUsageStep this (consumeQuantity cfg) u3
         else Updates u3) = Updates u)"
    using slot by (simp add: getUsageUpdates_Updates_iff)
  have c1: "n = 0 \<longrightarrow> (\<forall>u. getUsageUpdates h this owner cfg \<noteq> Updates u)"
    unfolding full step by blast
  have c2: "(\<exists>u. getUsageUpdates h this owner cfg = Updates u) \<longleftrightarrow>
           n \<noteq> 0 \<and> (\<exists>u. getUsageUpdates h this owner (cfg\<lparr>consumeSpellSlot := False\<rparr>) = Updates u)"
  proof
    assume "\<exists>u. getUsageUpdates h this owner cfg = Updates u"
    then obtain u u1 u2 u3 where
      s1: "(if consumeRecharge cfg then consumeRechargeStep this emptyBuckets
            else Updates emptyBuckets) = Updates u1"
      and s2: "(if consumeResource cfg then handleConsumeResource h this owner u1
                else Updates u1) = Updates u2"
      and s3: "consumeSpellSlotStep h owner (consumeSpellLevel cfg) u2 = Updates u3"
      and s4: "(if consumeUsage cfg then consumeUsageStep this (consumeQuantity cfg) u3
                else Updates u3) = Updates u"
      unfolding full by blast
    from s3 have nz: "n \<noteq> 0"
      unfolding step by blast
    from usage_block_succeeds_indep [OF s4, of u2] obtain v where
      "(if consumeUsage cfg then consumeUsageStep this (consumeQuantity cfg) u2
        else Updates u2) = Updates v"
      by blast
    with s1 s2 have "getUsageUpdates h this owner (cfg\<lparr>consumeSpellSlot := False\<rparr>) = Updates v"
      unfolding getUsageUpdates_slot_off_Updates_iff by blast
    with nz show "n \<noteq> 0 \<and>
        (\<exists>u. getUsageUpdates h this owner (cfg\<lparr>consumeSpellSlot := False\<rparr>) = Updates u)"
      by blast
  next
    assume a: "n \<noteq> 0 \<and>
        (\<exists>u. getUsageUpdates h this owner (cfg\<lparr>consumeSpellSlot := False\<rparr>) = Updates u)"
    then obtain u u1 u2 where
      s1: "(if consumeRecharge cfg then consumeRechargeStep this emptyBuckets
            else Updates emptyBuckets) = Updates u1"
      and s2: "(if consumeResource cfg then handleConsumeResource h this owner u1
                else Updates u1) = Updates u2"
      and s4: "(if consumeUsage cfg then consumeUsageStep this (consumeQuantity cfg) u2
                else Updates u2) = Updates u"
      unfolding getUsageUpdates_slot_off_Updates_iff by blast
    obtain u3 where s3: "consumeSpellSlotStep h owner (consumeSpellLevel cfg) u2 = Updates u3"
      using a unfolding step by blast
    from usage_block_succeeds_indep [OF s4, of u3] obtain v where
      "(if consumeUsage cfg then consumeUsageStep this (consumeQuantity cfg) u3
        else Updates u3) = Updates v"
      by blast
    with s1 s2 s3 have "getUsageUpdates h this owner cfg = Updates v"
      unfolding full by blast
    then show "\<exists>u. getUsageUpdates h this owner cfg = Updates u" by blast
  qed
  have c3: "getUsageUpdates h this owner cfg = Updates u \<longrightarrow>
           map_of (actorUpdates u) (''system.spells.'' @ key @ ''.value'')
             = Some (NumV (max (n - 1) 0))"
  proof
    assume "getUsageUpdates h this owner cfg = Updates u"
    then obtain u2 u3 where
      s3: "consumeSpellSlotStep h owner (consumeSpellLevel cfg) u2 = Updates u3"
      and s4: "(if consumeUsage cfg then consumeUsageStep this (consumeQuantity cfg) u3
                else Updates u3) = Updates u"
      unfolding full by blast
    from s4 have "actorUpdates u = actorUpdates u3"
      using consumeUsageStep_actorUpdates [of this "consumeQuantity cfg" u3 u]
      by (cases "consumeUsage cfg") auto
    with s3 show "map_of (actorUpdates u) (''system.spells.'' @ key @ ''.value'')
             = Some (NumV (max (n - 1) 0))"
      unfolding step by (simp add: update_conv')
  qed
  have c4: "\<not> consumeRecharge cfg \<and> \<not> consumeResource cfg \<and> \<not> consumeUsage cfg \<longrightarrow>
           getUsageUpdates h this owner cfg =
             (if n = 0 then ReturnFalse SpellCastNoSlots
              else Updates (emptyBuckets\<lparr>actorUpdates :=
                     [(''system.spells.'' @ key @ ''.value'', NumV (max (n - 1) 0))]\<rparr>))"
    using slot key n
    by (simp add: getUsageUpdates_def consumeSpellSlotStep_def Let_def emptyBuckets_def)
  from c1 c2 c3 c4 show ?thesis by (intro conjI)
qed

text \<open>
  Claim C9. When a spell slot is to be consumed, the pool read is the one of the
  requested level: for a number \<open>i\<close> (not 0) the pool \<^verbatim>\<open>spell\<close>\<open>i\<close>, for a numeric string \<open>s\<close>
  the pool \<^verbatim>\<open>spell\<close>\<open>s\<close>, and for any other string, such as \<^verbatim>\<open>pact\<close>, the pool of that name.
  The number of slots \<open>n\<close> is the value of that pool of the actor, 0 when the pool, its
  value or the actor is missing. With \<open>n = 0\<close> no updates are returned. The use yields
  updates exactly when \<open>n\<close> is not 0 and the use without the slot step yields updates;
  the actor update then sets \<^verbatim>\<open>system.spells.<pool>.value\<close> to \<open>n - 1\<close>, and not below 0.
  With no other step requested the result is \<^verbatim>\<open>false\<close> exactly at \<open>n = 0\<close> and otherwise
  that single actor update.
\<close>

theorem spell_slot_pool_consumption:
  assumes slot: "consumeSpellSlot cfg"
    and lvl: "(consumeSpellLevel cfg = NumLevel i \<and> i \<noteq> 0 \<and> key = ''spell'' @ string_of_int i) \<or>
              (consumeSpellLevel cfg = StrLevel s \<and> s \<noteq> [] \<and> isNumeric h s \<and>
                 key = ''spell'' @ s) \<or>
              (consumeSpellLevel cfg = StrLevel s \<and> s \<noteq> [] \<and> \<not> isNumeric h s \<and> key = s)"
    and n: "n = (case owner of None \<Rightarrow> 0
                 | Some a \<Rightarrow> (case spells a key of None \<Rightarrow> 0 | Some None \<Rightarrow> 0 | Some (Some v) \<Rightarrow> v))"
  shows "(n = 0 \<longrightarrow> (\<forall>u. getUsageUpdates h this owner cfg \<noteq> Updates u)) \<and>
         ((\<exists>u. getUsageUpdates h this owner cfg = Updates u) \<longleftrightarrow>
           n \<noteq> 0 \<and> (\<exists>u. getUsageUpdates h this owner (cfg\<lparr>consumeSpellSlot := False\<rparr>) = Updates u)) \<and>
         (getUsageUpdates h this owner cfg = Updates u \<longrightarrow>
           map_of (actorUpdates u) (''system.spells.'' @ key @ ''.value'')
             = Some (NumV (max (n - 1) 0))) \<and>
         (\<not> consumeRecharge cfg \<and> \<not> consumeResource cfg \<and> \<not> consumeUsage cfg \<longrightarrow>
           getUsageUpdates h this owner cfg =
             (if n = 0 then ReturnFalse SpellCastNoSlots
              else Updates (emptyBuckets\<lparr>actorUpdates :=
                     [(''system.spells.'' @ key @ ''.value'', NumV (max (n - 1) 0))]\<rparr>)))"
proof -
  from lvl have truthy: "spellLevelTruthy (consumeSpellLevel cfg)"
    and key: "key = spellLevelKey h (consumeSpellLevel cfg)"
    by auto
  have pool: "n = slotsAvailable owner key"
    unfolding n slotsAvailable_def by (simp split: option.splits)
  show ?thesis
    by (rule spell_slot_step_outcome [OF slot truthy key pool])
qed

text \<open>
  C9 on a caster with two slots of level 3 and no pact slot, for the level given as the
  number 3, as the string \<^verbatim>\<open>"3"\<close> and as \<^verbatim>\<open>"pact"\<close>.
\<close>

theorem spell_slot_pool_consumption_witness:
  "consumeSpellSlot (noConsumption\<lparr>consumeSpellSlot := True, consumeSpellLevel := NumLevel 3\<rparr>) \<and>
   ''spell3'' = ''spell'' @ string_of_int 3 \<and>
   spells mage ''spell3'' = Some (Some 2) \<and>
   getUsageUpdates plainHost fireball (Some mage)
       (noConsumption\<lparr>consumeSpellSlot := True, consumeSpellLevel := NumLevel 3\<rparr>)
     = Updates (emptyBuckets\<lparr>actorUpdates := [(''system.spells.spell3.value'', NumV 1)]\<rparr>) \<and>
   isNumeric plainHost ''3'' \<and>
   getUsageUpdates plainHost fireball (Some mage)
       (noConsumption\<lparr>consumeSpellSlot := True, consumeSpellLevel := StrLevel ''3''\<rparr>)
     = Updates (emptyBuckets\<lparr>actorUpdates := [(''system.spells.spell3.value'', NumV 1)]\<rparr>) \<and>
   \<not> isNumeric plainHost ''pact'' \<and>
   spells mage ''pact'' = Some (Some 0) \<and>
   getUsageUpdates plainHost fireball (Some mage)
       (noConsumption\<lparr>consumeSpellSlot := True, consumeSpellLevel := StrLevel ''pact''\<rparr>)
     = ReturnFalse SpellCastNoSlots"
proof -
  let ?num = "noConsumption\<lparr>consumeSpellSlot := True, consumeSpellLevel := NumLevel 3\<rparr>"
  let ?str = "noConsumption\<lparr>consumeSpellSlot := True, consumeSpellLevel := StrLevel ''3''\<rparr>"
  let ?pact = "noConsumption\<lparr>consumeSpellSlot := True, consumeSpellLevel := StrLevel ''pact''\<rparr>"
  have k3: "''spell3'' = ''spell'' @ string_of_int 3"
    by (simp add: string_of_int_def string_of_nat.simps)
  have num3: "isNumeric plainHost ''3''"
    by (simp add: plainHost_def all_digits_def is_digit_def)
  have nump: "\<not> isNumeric plainHost ''pact''"
    by (simp add: plainHost_def all_digits_def is_digit_def)
  have p3: "spells mage ''spell3'' = Some (Some 2)" and pp: "spells mage ''pact'' = Some (Some 0)"
    by (simp_all add: mage_def blankActor_def)
  have n3: "2 = (case Some mage of None \<Rightarrow> 0
                 | Some a \<Rightarrow> (case spells a ''spell3'' of None \<Rightarrow> 0 | Some None \<Rightarrow> 0
                              | Some (Some v) \<Rightarrow> v))"
    by (simp add: p3)
  have np: "0 = (case Some mage of None \<Rightarrow> 0
                 | Some a \<Rightarrow> (case spells a ''pact'' of None \<Rightarrow> 0 | Some None \<Rightarrow> 0
                              | Some (Some v) \<Rightarrow> v))"
    by (simp add: pp)
  have fn: "consumeSpellSlot ?num"
    "\<not> consumeRecharge ?num \<and> \<not> consumeResource ?num \<and> \<not> consumeUsage ?num"
    and fs: "consumeSpellSlot ?str"
    "\<not> consumeRecharge ?str \<and> \<not> consumeResource ?str \<and> \<not> consumeUsage ?str"
    and fp: "consumeSpellSlot ?pact"
    "\<not> consumeRecharge ?pact \<and> \<not> consumeResource ?pact \<and> \<not> consumeUsage ?pact"
    by (simp_all add: noConsumption_def)
  have ln: "(consumeSpellLevel ?num = NumLevel 3 \<and> (3::int) \<noteq> 0 \<and>
               ''spell3'' = ''spell'' @ string_of_int 3) \<or>
            (consumeSpellLevel ?num = StrLevel [] \<and> [] \<noteq> [] \<and> isNumeric plainHost [] \<and>
               ''spell3'' = ''spell'' @ []) \<or>
            (consumeSpellLevel ?num = StrLevel [] \<and> [] \<noteq> [] \<and> \<not> isNumeric plainHost [] \<and>
               ''spell3'' = [])"
    using k3 by simp
  have ls: "(consumeSpellLevel ?str = NumLevel 0 \<and> (0::int) \<noteq> 0 \<and>
               ''spell3'' = ''spell'' @ string_of_int 0) \<or>
            (consumeSpellLevel ?str = StrLevel ''3'' \<and> ''3'' \<noteq> [] \<and> isNumeric plainHost ''3'' \<and>
               ''spell3'' = ''spell'' @ ''3'') \<or>
            (consumeSpellLevel ?str = StrLevel ''3'' \<and> ''3'' \<noteq> [] \<and> \<not> isNumeric plainHost ''3'' \<and>
               ''spell3'' = ''3'')"
    using num3 by simp
  have lp: "(consumeSpellLevel ?pact = NumLevel 0 \<and> (0::int) \<noteq> 0 \<and>
               ''pact'' = ''spell'' @ string_of_int 0) \<or>
            (consumeSpellLevel ?pact = StrLevel ''pact'' \<and> ''pact'' \<noteq> [] \<and>
               isNumeric plainHost ''pact'' \<and> ''pact'' = ''spell'' @ ''pact'') \<or>
            (consumeSpellLevel ?pact = StrLevel ''pact'' \<and> ''pact'' \<noteq> [] \<and>
               \<not> isNumeric plainHost ''pact'' \<and> ''pact'' = ''pact'')"
    using nump by simp
  have a: "getUsageUpdates plainHost fireball (Some mage) ?num
     = Updates (emptyBuckets\<lparr>actorUpdates := [(''system.spells.spell3.value'', NumV 1)]\<rparr>)"
    using spell_slot_pool_consumption [OF fn(1) ln n3, of fireball emptyBuckets] fn(2)
    by simp
  have b: "getUsageUpdates plainHost fireball (Some mage) ?str
     = Updates (emptyBuckets\<lparr>actorUpdates := [(''system.spells.spell3.value'', NumV 1)]\<rparr>)"
    using spell_slot_pool_consumption [OF fs(1) ls n3, of fireball emptyBuckets] fs(2)
    by simp
  have c: "getUsageUpdates plainHost fireball (Some mage) ?pact = ReturnFalse SpellCastNoSlots"
    using spell_slot_pool_consumption [OF fp(1) lp np, of fireball emptyBuckets] fp(2)
    by simp
  from fn(1) k3 p3 a num3 b nump pp c show ?thesis by (intro conjI)
qed

lemma consumeRechargeStep_warning:
  "consumeRechargeStep this u = ReturnFalse w \<Longrightarrow> w = ItemNoUses"
  by (auto simp: consumeRechargeStep_def split: if_splits)

lemma consumeUsageStep_warning:
  "consumeUsageStep this q u = ReturnFalse w \<Longrightarrow> w = ItemNoUses"
  by (auto simp: consumeUsageStep_def Let_def split: if_splits)

lemma handleConsumeResource_warning:
  "handleConsumeResource h this owner u = ReturnFalse w \<Longrightarrow> w \<noteq> SpellCastNoSlots"
  by (auto simp: handleConsumeResource_def Let_def split: option.splits if_splits sum.splits)

text \<open>
  Claim C10. With \<^verbatim>\<open>consumeSpellSlot\<close> set and a \<^verbatim>\<open>consumeSpellLevel\<close> that is \<^verbatim>\<open>null\<close> or falsy,
  the slot step is skipped: the result is that of the same use without slot consumption,
  it is never the refusal for missing slots, and with no other step requested the use
  succeeds with empty buckets.
\<close>

theorem spell_slot_skipped_without_level:
  assumes "consumeSpellSlot cfg" and "\<not> spellLevelTruthy (consumeSpellLevel cfg)"
  shows "getUsageUpdates h this owner cfg
           = getUsageUpdates h this owner (cfg\<lparr>consumeSpellSlot := False\<rparr>) \<and>
         getUsageUpdates h this owner cfg \<noteq> ReturnFalse SpellCastNoSlots \<and>
         (\<not> consumeRecharge cfg \<and> \<not> consumeResource cfg \<and> \<not> consumeUsage cfg \<longrightarrow>
            getUsageUpdates h this owner cfg = Updates emptyBuckets)"
proof -
  have e: "getUsageUpdates h this owner cfg
           = getUsageUpdates h this owner (cfg\<lparr>consumeSpellSlot := False\<rparr>)"
    using assms by (simp add: getUsageUpdates_slot_off) (simp add: getUsageUpdates_def and_then_Updates_id)
  have w: "getUsageUpdates h this owner (cfg\<lparr>consumeSpellSlot := False\<rparr>)
             \<noteq> ReturnFalse SpellCastNoSlots"
    unfolding getUsageUpdates_slot_off and_then_ReturnFalse_iff
    using consumeRechargeStep_warning [of this _ SpellCastNoSlots]
      consumeUsageStep_warning [of this _ _ SpellCastNoSlots]
      handleConsumeResource_warning [of h this owner _ SpellCastNoSlots]
    by (auto split: if_splits)
  have n: "\<not> consumeRecharge cfg \<and> \<not> consumeResource cfg \<and> \<not> consumeUsage cfg \<longrightarrow>
            getUsageUpdates h this owner cfg = Updates emptyBuckets"
    using assms by (simp add: getUsageUpdates_def)
  from e w n show ?thesis by simp
qed

text \<open>C10 on an actor without any spell slot.\<close>

theorem spell_slot_skipped_without_level_witness:
  "consumeSpellSlot (noConsumption\<lparr>consumeSpellSlot := True\<rparr>) \<and>
   \<not> spellLevelTruthy (consumeSpellLevel (noConsumption\<lparr>consumeSpellSlot := True\<rparr>)) \<and>
   slotsAvailable (Some blankActor) ''spell3'' = 0 \<and>
   getUsageUpdates plainHost fireball (Some blankActor) (noConsumption\<lparr>consumeSpellSlot := True\<rparr>)
     = Updates emptyBuckets"
proof -
  let ?cfg = "noConsumption\<lparr>consumeSpellSlot := True\<rparr>"
  have f: "consumeSpellSlot ?cfg" "\<not> spellLevelTruthy (consumeSpellLevel ?cfg)"
    "\<not> consumeRecharge ?cfg \<and> \<not> consumeResource ?cfg \<and> \<not> consumeUsage ?cfg"
    by (simp_all add: noConsumption_def)
  have z: "slotsAvailable (Some blankActor) ''spell3'' = 0"
    by (simp add: slotsAvailable_def blankActor_def)
  from spell_slot_skipped_without_level [OF f(1,2), of plainHost fireball "Some blankActor"] f z
  show ?thesis by blast
qed

lemma getUsageUpdates_usage_off:
  "getUsageUpdates h this owner (cfg\<lparr>consumeUsage := False\<rparr>) =
     and_then
       (and_then
          (if consumeRecharge cfg then consumeRechargeStep this emptyBuckets
           else Updates emptyBuckets)
          (\<lambda>u. if consumeResource cfg then handleConsumeResource h this owner u else Updates u))
       (\<lambda>u. if consumeSpellSlot cfg \<and> spellLevelTruthy (consumeSpellLevel cfg)
            then consumeSpellSlotStep h owner (consumeSpellLevel cfg) u else Updates u)"
  by (simp add: getUsageUpdates_def and_then_Updates_id cong: if_cong)

lemma getUsageUpdates_after_usage_off:
  assumes "consumeUsage cfg"
    and "getUsageUpdates h this owner (cfg\<lparr>consumeUsage := False\<rparr>) = Updates u"
  shows "getUsageUpdates h this owner cfg = consumeUsageStep this (consumeQuantity cfg) u"
proof -
  have "getUsageUpdates h this owner cfg =
          and_then (getUsageUpdates h this owner (cfg\<lparr>consumeUsage := False\<rparr>))
            (\<lambda>u. consumeUsageStep this (consumeQuantity cfg) u)"
    unfolding getUsageUpdates_usage_off using assms(1) by (simp add: getUsageUpdates_def)
  then show ?thesis using assms(2) by simp
qed

text \<open>
  Claim C2. Let the steps before the limited uses step have handed on the buckets \<open>u\<close>.
  With uses at 0, a maximum of 3 and a quantity of 2, consuming uses and quantity
  succeeds, with the quantity set to 1 and the uses set to 3. In general: uses that
  stay above zero, or that reach zero when the quantity cannot pay, are decremented;
  when the uses are missing, at zero or reach zero and the quantity may be consumed and
  is at least 1, the quantity is decremented and the uses are reset to the maximum (1
  if there is none); the step is refused only when neither uses nor quantity can be
  decremented.
\<close>

theorem limited_uses_then_quantity:
  assumes "consumeUsage cfg"
    and "getUsageUpdates h this owner (cfg\<lparr>consumeUsage := False\<rparr>) = Updates u"
    and "available = nullish (case uses this of None \<Rightarrow> None | Some us \<Rightarrow> uses_value us) 0"
    and "mx = max_or_one (case uses this of None \<Rightarrow> NoMax | Some us \<Rightarrow> uses_max us)"
    and "q = nullish (system_quantity this) 1"
  shows "(available = 0 \<and> mx = NumV 3 \<and> q = 2 \<and> consumeQuantity cfg \<longrightarrow>
            getUsageUpdates h this owner cfg =
              Updates (u\<lparr>itemUpdates :=
                AList.update ''system.uses.value'' (NumV 3)
                  (AList.update ''system.quantity'' (NumV 1) (itemUpdates u))\<rparr>)) \<and>
         (2 \<le> available \<or> (available = 1 \<and> \<not> (consumeQuantity cfg \<and> 1 \<le> q)) \<longrightarrow>
            getUsageUpdates h this owner cfg =
              Updates (u\<lparr>itemUpdates :=
                AList.update ''system.uses.value'' (NumV (available - 1)) (itemUpdates u)\<rparr>)) \<and>
         (available \<le> 1 \<and> consumeQuantity cfg \<and> 1 \<le> q \<longrightarrow>
            getUsageUpdates h this owner cfg =
              Updates (u\<lparr>itemUpdates :=
                AList.update ''system.uses.value'' mx
                  (AList.update ''system.quantity'' (NumV (q - 1))
                     (if available = 1
                      then AList.update ''system.uses.value'' (NumV 0) (itemUpdates u)
                      else itemUpdates u))\<rparr>)) \<and>
         ((\<exists>w. getUsageUpdates h this owner cfg = ReturnFalse w) \<longleftrightarrow>
            available < 1 \<and> \<not> (consumeQuantity cfg \<and> 1 \<le> q))"
proof -
  have r: "getUsageUpdates h this owner cfg = consumeUsageStep this (consumeQuantity cfg) u"
    using assms(1,2) by (rule getUsageUpdates_after_usage_off)
  show ?thesis
    unfolding r using assms(3,4,5)
    by (auto simp: consumeUsageStep_def Let_def)
qed

text \<open>C2 on the wand with uses 0 of 3 and quantity 2.\<close>

theorem limited_uses_then_quantity_witness:
  "consumeUsage (noConsumption\<lparr>consumeUsage := True, consumeQuantity := True\<rparr>) \<and>
   getUsageUpdates plainHost wand None
       (noConsumption\<lparr>consumeUsage := True, consumeQuantity := True, consumeUsage := False\<rparr>)
     = Updates emptyBuckets \<and>
   nullish (case uses wand of None \<Rightarrow> None | Some us \<Rightarrow> uses_value us) 0 = 0 \<and>
   max_or_one (case uses wand of None \<Rightarrow> NoMax | Some us \<Rightarrow> uses_max us) = NumV 3 \<and>
   nullish (system_quantity wand) 1 = 2 \<and>
   getUsageUpdates plainHost wand None
       (noConsumption\<lparr>consumeUsage := True, consumeQuantity := True\<rparr>)
     = Updates \<lparr>itemUpdates = [(''system.quantity'', NumV 1), (''system.uses.value'', NumV 3)],
                actorUpdates = [], resourceUpdates = []\<rparr>"
proof -
  let ?cfg = "noConsumption\<lparr>consumeUsage := True, consumeQuantity := True\<rparr>"
  have f: "consumeUsage ?cfg" "consumeQuantity ?cfg"
    by (simp_all add: noConsumption_def)
  have before: "getUsageUpdates plainHost wand None (?cfg\<lparr>consumeUsage := False\<rparr>)
                  = Updates emptyBuckets"
    by (simp add: getUsageUpdates_def noConsumption_def)
  have av: "0 = nullish (case uses wand of None \<Rightarrow> None | Some us \<Rightarrow> uses_value us) 0"
    and mx: "NumV 3 = max_or_one (case uses wand of None \<Rightarrow> NoMax | Some us \<Rightarrow> uses_max us)"
    and q: "2 = nullish (system_quantity wand) 1"
    by (simp_all add: wand_def blankItem_def)
  from limited_uses_then_quantity [OF f(1) before av mx q] f(2) before av mx q
  show ?thesis by (simp add: emptyBuckets_def)
qed

lemma foldl_hit_dice:
  "foldl (\<lambda>count cls. count + class_levels cls - hitDiceUsed cls) z cs
     = z + sum_list (map (\<lambda>cls. class_levels cls - hitDiceUsed cls) cs)"
  by (induction cs arbitrary: z) auto


















section \<open>Hit dice\<close>

lemma sum_list_insort_cmp:
  "sum_list (map f (insort_cmp cmp x xs)) = f x + sum_list (map f xs)"
  for f :: "'a \<Rightarrow> int"
  by (induction xs) auto

lemma sum_list_js_sort:
  "sum_list (map f (js_sort cmp xs)) = sum_list (map f xs)"
  for f :: "'a \<Rightarrow> int"
  by (induction xs) (auto simp: sum_list_insort_cmp)

lemma set_insort_cmp: "set (insort_cmp cmp x xs) = insert x (set xs)"
  by (induction xs) auto

lemma set_js_sort: "set (js_sort cmp xs) = set xs"
  by (induction xs) (auto simp: set_insort_cmp)

lemma hitDiceDeltas_total:
  "0 < n \<Longrightarrow> n \<le> sum_list (map (\<lambda>cls. class_levels cls - hitDiceUsed cls) cs) \<Longrightarrow>
     sum_list (map snd (hitDiceDeltas n cs)) = n"
proof (induction cs arbitrary: n)
  case Nil
  then show ?case by simp
next
  case (Cons cls rest)
  let ?avail = "class_levels cls - hitDiceUsed cls"
  show ?case
  proof (cases "n \<le> ?avail")
    case True
    with Cons.prems show ?thesis by (simp add: Let_def)
  next
    case False
    then have d: "min n ?avail = ?avail" by simp
    have rest: "n - ?avail \<le> sum_list (map (\<lambda>cls. class_levels cls - hitDiceUsed cls) rest)"
      using Cons.prems by simp
    have pos: "0 < n - ?avail" using False by simp
    show ?thesis
    proof (cases "?avail = 0")
      case True
      with Cons.prems Cons.IH [of n] show ?thesis by (simp add: Let_def)
    next
      case nz: False
      from Cons.IH [OF pos rest] pos nz Cons.prems(1) d show ?thesis
        by (simp add: Let_def)
    qed
  qed
qed

lemma hitDiceDeltas_bound:
  "0 < n \<Longrightarrow> (cls, d) \<in> set (hitDiceDeltas n cs) \<Longrightarrow>
     d \<le> class_levels cls - hitDiceUsed cls \<and> d \<noteq> 0"
proof (induction cs arbitrary: n)
  case Nil
  then show ?case by simp
next
  case (Cons c rest)
  let ?avail = "class_levels c - hitDiceUsed c"
  let ?delta = "min n ?avail"
  have step: "hitDiceDeltas n (c # rest) =
      (if ?delta \<noteq> 0
       then (c, ?delta) # (if n - ?delta = 0 then [] else hitDiceDeltas (n - ?delta) rest)
       else hitDiceDeltas n rest)"
    using Cons.prems(1) by (simp add: Let_def)
  show ?case
  proof (cases "?delta = 0")
    case True
    with Cons.prems step have "(cls, d) \<in> set (hitDiceDeltas n rest)" by simp
    with Cons.IH [OF Cons.prems(1)] show ?thesis by simp
  next
    case False
    show ?thesis
    proof (cases "(cls, d) = (c, ?delta)")
      case True
      with False show ?thesis by auto
    next
      case other: False
      with Cons.prems step False have m: "(cls, d) \<in> set (hitDiceDeltas (n - ?delta) rest)"
        and ne: "n - ?delta \<noteq> 0"
        by (auto split: if_splits)
      from ne have pos: "0 < n - ?delta" by simp
      from Cons.IH [OF pos m] show ?thesis by auto
    qed
  qed
qed

lemma hitDiceDeltas_subseq: "subseq (map fst (hitDiceDeltas n cs)) cs"
  by (induction cs arbitrary: n) (auto simp: Let_def)

lemma in_set_butlast_Cons:
  "p \<in> set (butlast (x # xs)) \<Longrightarrow> p = x \<or> p \<in> set (butlast xs)"
  by (cases xs) auto

lemma hitDiceDeltas_butlast:
  "0 < n \<Longrightarrow> p \<in> set (butlast (hitDiceDeltas n cs)) \<Longrightarrow>
     snd p = class_levels (fst p) - hitDiceUsed (fst p)"
proof (induction cs arbitrary: n)
  case Nil
  then show ?case by simp
next
  case (Cons c rest)
  let ?avail = "class_levels c - hitDiceUsed c"
  let ?delta = "min n ?avail"
  have step: "hitDiceDeltas n (c # rest) =
      (if ?delta \<noteq> 0
       then (c, ?delta) # (if n - ?delta = 0 then [] else hitDiceDeltas (n - ?delta) rest)
       else hitDiceDeltas n rest)"
    using Cons.prems(1) by (simp add: Let_def)
  show ?case
  proof (cases "?delta = 0")
    case True
    with step have "hitDiceDeltas n (c # rest) = hitDiceDeltas n rest" by (simp only: if_False simp_thms)
    with Cons.prems(2) have "p \<in> set (butlast (hitDiceDeltas n rest))" by (simp only:)
    from Cons.IH [OF Cons.prems(1) this] show ?thesis .
  next
    case False
    show ?thesis
    proof (cases "n - ?delta = 0")
      case True
      with False step have "hitDiceDeltas n (c # rest) = [(c, ?delta)]"
        by (simp only: if_True simp_thms)
      with Cons.prems(2) have "p \<in> set (butlast [(c, ?delta)])" by (simp only:)
      then show ?thesis by simp
    next
      case more: False
      then have full: "?delta = ?avail" by (simp add: min_def split: if_splits)
      from more have pos: "0 < n - ?delta" by simp
      from False more step
      have "hitDiceDeltas n (c # rest) = (c, ?delta) # hitDiceDeltas (n - ?delta) rest"
        by (simp only: if_True if_False simp_thms)
      with Cons.prems(2)
      have "p \<in> set (butlast ((c, ?delta) # hitDiceDeltas (n - ?delta) rest))"
        by (simp only:)
      then have "p = (c, ?delta) \<or> p \<in> set (butlast (hitDiceDeltas (n - ?delta) rest))"
        by (rule in_set_butlast_Cons)
      then show ?thesis
      proof
        assume "p = (c, ?delta)"
        with full show ?thesis by simp
      next
        assume "p \<in> set (butlast (hitDiceDeltas (n - ?delta) rest))"
        from Cons.IH [OF pos this] show ?thesis .
      qed
    qed
  qed
qed

lemma sorted_wrt_insort_cmp:
  assumes total: "\<forall>x y. cmp x y \<le> 0 \<or> cmp y x \<le> 0"
    and trans: "\<forall>x y z. cmp x y \<le> 0 \<and> cmp y z \<le> 0 \<longrightarrow> cmp x z \<le> 0"
  shows "sorted_wrt (\<lambda>x y. cmp x y \<le> 0) xs \<Longrightarrow>
           sorted_wrt (\<lambda>x y. cmp x y \<le> 0) (insort_cmp cmp x xs)"
proof (induction xs)
  case Nil
  then show ?case by simp
next
  case (Cons y ys)
  show ?case
  proof (cases "cmp x y \<le> 0")
    case True
    have "cmp x z \<le> 0" if "z \<in> set ys" for z
    proof -
      from that Cons.prems have "cmp y z \<le> 0" by simp
      with True trans show ?thesis by blast
    qed
    with True Cons.prems show ?thesis by simp
  next
    case False
    with total have yx: "cmp y x \<le> 0" by blast
    from Cons.prems have tail: "sorted_wrt (\<lambda>x y. cmp x y \<le> 0) ys"
      and head: "\<forall>z \<in> set ys. cmp y z \<le> 0"
      by simp_all
    from Cons.IH [OF tail] head yx False show ?thesis
      by (simp add: set_insort_cmp)
  qed
qed

lemma sorted_wrt_js_sort:
  assumes "\<forall>x y. cmp x y \<le> 0 \<or> cmp y x \<le> 0"
    and "\<forall>x y z. cmp x y \<le> 0 \<and> cmp y z \<le> 0 \<longrightarrow> cmp x z \<le> 0"
  shows "sorted_wrt (\<lambda>x y. cmp x y \<le> 0) (js_sort cmp xs)"
  by (induction xs) (simp_all add: sorted_wrt_insort_cmp [OF assms])

lemma length_insort_cmp: "length (insort_cmp cmp x xs) = Suc (length xs)"
  by (induction xs) auto

lemma length_js_sort: "length (js_sort cmp xs) = length xs"
  by (induction xs) (auto simp: length_insort_cmp)

lemma hitDiceDeltas_zero:
  "\<forall>cls \<in> set cs. 0 \<le> hitDiceUsed cls \<Longrightarrow> hitDiceDeltas 0 cs = []"
proof (induction cs)
  case Nil
  then show ?case by simp
next
  case (Cons cls rest)
  then have u: "0 \<le> hitDiceUsed cls" and r: "hitDiceDeltas 0 rest = []"
    by simp_all
  from u have "max 0 (0 - hitDiceUsed cls) = 0" by simp
  with r show ?case by (simp add: Let_def)
qed

text \<open>
  Claim C6. Hit dice available are the sum of levels minus used dice over the class
  items: all of them for the targets \<^verbatim>\<open>smallest\<close> and \<^verbatim>\<open>largest\<close>, those with the target's die
  otherwise. The classes are taken in the order of the actor, or, for \<^verbatim>\<open>smallest\<close> and
  \<^verbatim>\<open>largest\<close>, sorted by the numeric collation of their dice, ascending and descending
  (for a collation that is a consistent order). For an amount \<open>n > 0\<close>: a request above the
  sum is refused; otherwise the classes are charged in that order, each at most once
  and never more than its levels minus used dice, every class charged before the last
  one for all the dice it has left, and the charges add up to exactly \<open>n\<close>. For an amount left \<^verbatim>\<open>null\<close> the sufficiency test asks for 1 die, as the other resource
  kinds do, but the loop reads the \<^verbatim>\<open>null\<close> amount itself: the use is accepted and no
  class is charged.
\<close>

theorem hit_dice_consumption:
  assumes c: "consume this = Some c" "consume_type c = ''hitDice''"
    and t: "consume_target c = t" "t \<noteq> []"
    and a: "owner = Some a"
    and pool: "pool = filter (\<lambda>cls. t = ''smallest'' \<or> t = ''largest'' \<or> hitDice cls = t)
                        (classes a)"
    and ordered: "ordered = (if t = ''smallest'' \<or> t = ''largest''
                             then js_sort (hitDiceOrder h t) pool else pool)"
    and aggregate: "aggregate = sum_list (map (\<lambda>cls. class_levels cls - hitDiceUsed cls) pool)"
  shows "(consume_amount c = Some n \<and> 0 < n \<longrightarrow>
           (aggregate < n \<longrightarrow>
              handleConsumeResource h this owner u = ReturnFalse ConsumeWarningNoQuantity) \<and>
           (n \<le> aggregate \<longrightarrow>
              handleConsumeResource h this owner u =
                Updates (u\<lparr>resourceUpdates := resourceUpdates u @
                           map hitDiceUpdate (hitDiceDeltas n ordered)\<rparr>) \<and>
              sum_list (map snd (hitDiceDeltas n ordered)) = n \<and>
              subseq (map fst (hitDiceDeltas n ordered)) ordered \<and>
              (\<forall>p \<in> set (hitDiceDeltas n ordered).
                 snd p \<le> class_levels (fst p) - hitDiceUsed (fst p)) \<and>
              (\<forall>p \<in> set (butlast (hitDiceDeltas n ordered)).
                 snd p = class_levels (fst p) - hitDiceUsed (fst p)))) \<and>
         (consume_amount c = None \<longrightarrow>
           (aggregate < 1 \<longrightarrow>
              handleConsumeResource h this owner u = ReturnFalse ConsumeWarningNoQuantity) \<and>
           (1 \<le> aggregate \<and> (\<forall>cls \<in> set pool. 0 \<le> hitDiceUsed cls) \<longrightarrow>
              handleConsumeResource h this owner u = Updates u)) \<and>
         set ordered = set pool \<and> length ordered = length pool \<and>
         ((\<forall>x y. localeCompareNumeric h x y < 0 \<longleftrightarrow> 0 < localeCompareNumeric h y x) \<and>
          (\<forall>x y z. localeCompareNumeric h x y \<le> 0 \<and> localeCompareNumeric h y z \<le> 0
                    \<longrightarrow> localeCompareNumeric h x z \<le> 0) \<longrightarrow>
            (t = ''smallest'' \<longrightarrow>
               sorted_wrt (\<lambda>x y. localeCompareNumeric h (hitDice x) (hitDice y) \<le> 0) ordered) \<and>
            (t = ''largest'' \<longrightarrow>
               sorted_wrt (\<lambda>x y. 0 \<le> localeCompareNumeric h (hitDice x) (hitDice y)) ordered))"
proof -
  let ?denom = "if t \<noteq> ''smallest'' \<and> t \<noteq> ''largest'' then Some t else None"
  let ?lc = "localeCompareNumeric h"
  have f: "filter (\<lambda>cls. ?denom = None \<or> ?denom = Some [] \<or> Some (hitDice cls) = ?denom)
             (classes a) = pool"
    unfolding pool using t(2) by (intro filter_cong) auto
  have ident: "identifyResource owner c
                 = Inr (Classes pool, nullish (consume_amount c) 1, aggregate)"
    using c t a f by (simp add: identifyResource_def Let_def foldl_hit_dice aggregate)
  have upd: "defineUpdates h c (Classes pool) r u =
               u\<lparr>resourceUpdates := resourceUpdates u @
                    map hitDiceUpdate (hitDiceDeltas (nullish (consume_amount c) 0) ordered)\<rparr>" for r
    using c t by (simp add: defineUpdates_def Let_def ordered)
  have short: "aggregate < nullish (consume_amount c) 1 \<longrightarrow>
      handleConsumeResource h this owner u = ReturnFalse ConsumeWarningNoQuantity"
    using c t ident by (simp add: handleConsumeResource_def)
  have enough: "nullish (consume_amount c) 1 \<le> aggregate \<longrightarrow>
      handleConsumeResource h this owner u =
        Updates (u\<lparr>resourceUpdates := resourceUpdates u @
           map hitDiceUpdate (hitDiceDeltas (nullish (consume_amount c) 0) ordered)\<rparr>)"
    using c t ident upd by (simp add: handleConsumeResource_def)
  have agg: "sum_list (map (\<lambda>cls. class_levels cls - hitDiceUsed cls) ordered) = aggregate"
    unfolding ordered aggregate by (simp add: sum_list_js_sort)
  have same: "set ordered = set pool"
    unfolding ordered by (simp add: set_js_sort)
  have len: "length ordered = length pool"
    unfolding ordered by (simp add: length_js_sort)
  have positive: "consume_amount c = Some n \<and> 0 < n \<longrightarrow>
           (aggregate < n \<longrightarrow>
              handleConsumeResource h this owner u = ReturnFalse ConsumeWarningNoQuantity) \<and>
           (n \<le> aggregate \<longrightarrow>
              handleConsumeResource h this owner u =
                Updates (u\<lparr>resourceUpdates := resourceUpdates u @
                           map hitDiceUpdate (hitDiceDeltas n ordered)\<rparr>) \<and>
              sum_list (map snd (hitDiceDeltas n ordered)) = n \<and>
              subseq (map fst (hitDiceDeltas n ordered)) ordered \<and>
              (\<forall>p \<in> set (hitDiceDeltas n ordered).
                 snd p \<le> class_levels (fst p) - hitDiceUsed (fst p)) \<and>
              (\<forall>p \<in> set (butlast (hitDiceDeltas n ordered)).
                 snd p = class_levels (fst p) - hitDiceUsed (fst p)))"
  proof (intro impI, elim conjE)
    assume n: "consume_amount c = Some n" "0 < n"
    have total: "sum_list (map snd (hitDiceDeltas n ordered)) = n" if "n \<le> aggregate"
      using hitDiceDeltas_total [OF n(2), of ordered] that agg by simp
    have bound: "\<forall>p \<in> set (hitDiceDeltas n ordered).
                   snd p \<le> class_levels (fst p) - hitDiceUsed (fst p)"
      using hitDiceDeltas_bound [OF n(2), of _ _ ordered] by auto
    have drained: "\<forall>p \<in> set (butlast (hitDiceDeltas n ordered)).
                   snd p = class_levels (fst p) - hitDiceUsed (fst p)"
      using hitDiceDeltas_butlast [OF n(2), of _ ordered] by blast
    from short enough total bound drained hitDiceDeltas_subseq [of n ordered] n(1)
    show "(aggregate < n \<longrightarrow>
              handleConsumeResource h this owner u = ReturnFalse ConsumeWarningNoQuantity) \<and>
           (n \<le> aggregate \<longrightarrow>
              handleConsumeResource h this owner u =
                Updates (u\<lparr>resourceUpdates := resourceUpdates u @
                           map hitDiceUpdate (hitDiceDeltas n ordered)\<rparr>) \<and>
              sum_list (map snd (hitDiceDeltas n ordered)) = n \<and>
              subseq (map fst (hitDiceDeltas n ordered)) ordered \<and>
              (\<forall>p \<in> set (hitDiceDeltas n ordered).
                 snd p \<le> class_levels (fst p) - hitDiceUsed (fst p)) \<and>
              (\<forall>p \<in> set (butlast (hitDiceDeltas n ordered)).
                 snd p = class_levels (fst p) - hitDiceUsed (fst p)))"
      by simp
  qed
  have null: "consume_amount c = None \<longrightarrow>
           (aggregate < 1 \<longrightarrow>
              handleConsumeResource h this owner u = ReturnFalse ConsumeWarningNoQuantity) \<and>
           (1 \<le> aggregate \<and> (\<forall>cls \<in> set pool. 0 \<le> hitDiceUsed cls) \<longrightarrow>
              handleConsumeResource h this owner u = Updates u)"
  proof (intro impI conjI)
    assume "consume_amount c = None" "aggregate < 1"
    with short show "handleConsumeResource h this owner u = ReturnFalse ConsumeWarningNoQuantity"
      by simp
  next
    assume n: "consume_amount c = None"
      and e: "1 \<le> aggregate \<and> (\<forall>cls \<in> set pool. 0 \<le> hitDiceUsed cls)"
    then have "hitDiceDeltas 0 ordered = []"
      using hitDiceDeltas_zero [of ordered] same by simp
    with enough n e show "handleConsumeResource h this owner u = Updates u" by simp
  qed
  have srt: "(\<forall>x y. ?lc x y < 0 \<longleftrightarrow> 0 < ?lc y x) \<and>
          (\<forall>x y z. ?lc x y \<le> 0 \<and> ?lc y z \<le> 0 \<longrightarrow> ?lc x z \<le> 0) \<longrightarrow>
            (t = ''smallest'' \<longrightarrow>
               sorted_wrt (\<lambda>x y. ?lc (hitDice x) (hitDice y) \<le> 0) ordered) \<and>
            (t = ''largest'' \<longrightarrow>
               sorted_wrt (\<lambda>x y. 0 \<le> ?lc (hitDice x) (hitDice y)) ordered)"
  proof (intro impI, elim conjE, intro conjI impI)
    assume sym: "\<forall>x y. ?lc x y < 0 \<longleftrightarrow> 0 < ?lc y x"
      and tr: "\<forall>x y z. ?lc x y \<le> 0 \<and> ?lc y z \<le> 0 \<longrightarrow> ?lc x z \<le> 0"
      and s: "t = ''smallest''"
    have flip: "?lc y x < 0 \<longleftrightarrow> 0 < ?lc x y" for x y
      using sym by blast
    have tot: "\<forall>x y. ?lc (hitDice x) (hitDice y) \<le> 0 \<or> ?lc (hitDice y) (hitDice x) \<le> 0"
    proof (intro allI)
      fix x y
      show "?lc (hitDice x) (hitDice y) \<le> 0 \<or> ?lc (hitDice y) (hitDice x) \<le> 0"
        using flip [of "hitDice y" "hitDice x"] by linarith
    qed
    have trn: "\<forall>x y z. ?lc (hitDice x) (hitDice y) \<le> 0 \<and> ?lc (hitDice y) (hitDice z) \<le> 0
                 \<longrightarrow> ?lc (hitDice x) (hitDice z) \<le> 0"
      using tr by blast
    have "sorted_wrt (\<lambda>x y. ?lc (hitDice x) (hitDice y) \<le> 0)
            (js_sort (\<lambda>x y. ?lc (hitDice x) (hitDice y)) pool)"
      by (rule sorted_wrt_js_sort [OF tot trn])
    moreover have "hitDiceOrder h t = (\<lambda>x y. ?lc (hitDice x) (hitDice y))"
      using s by (intro ext) (simp add: hitDiceOrder_def Let_def)
    ultimately show "sorted_wrt (\<lambda>x y. ?lc (hitDice x) (hitDice y) \<le> 0) ordered"
      using s by (simp add: ordered)
  next
    assume sym: "\<forall>x y. ?lc x y < 0 \<longleftrightarrow> 0 < ?lc y x"
      and tr: "\<forall>x y z. ?lc x y \<le> 0 \<and> ?lc y z \<le> 0 \<longrightarrow> ?lc x z \<le> 0"
      and l: "t = ''largest''"
    have flip: "?lc y x < 0 \<longleftrightarrow> 0 < ?lc x y" for x y
      using sym by blast
    have ge: "0 \<le> ?lc x y \<longleftrightarrow> ?lc y x \<le> 0" for x y
      using flip [of x y] flip [of y x] by linarith
    let ?rev = "\<lambda>x y. - ?lc (hitDice x) (hitDice y)"
    have tot: "\<forall>x y. ?rev x y \<le> 0 \<or> ?rev y x \<le> 0"
    proof (intro allI)
      fix x y
      show "?rev x y \<le> 0 \<or> ?rev y x \<le> 0"
        using flip [of "hitDice y" "hitDice x"] by linarith
    qed
    have trn: "\<forall>x y z. ?rev x y \<le> 0 \<and> ?rev y z \<le> 0 \<longrightarrow> ?rev x z \<le> 0"
    proof (intro allI impI, elim conjE)
      fix x y z
      assume "?rev x y \<le> 0" "?rev y z \<le> 0"
      then have "?lc (hitDice z) (hitDice y) \<le> 0" "?lc (hitDice y) (hitDice x) \<le> 0"
        using ge [of "hitDice y" "hitDice z"] ge [of "hitDice x" "hitDice y"] by simp_all
      with tr have "?lc (hitDice z) (hitDice x) \<le> 0" by blast
      then show "?rev x z \<le> 0"
        using ge [of "hitDice x" "hitDice z"] by simp
    qed
    have "sorted_wrt (\<lambda>x y. ?rev x y \<le> 0) (js_sort ?rev pool)"
      by (rule sorted_wrt_js_sort [OF tot trn])
    moreover have "hitDiceOrder h t = ?rev"
      using l by (intro ext) (simp add: hitDiceOrder_def Let_def)
    ultimately show "sorted_wrt (\<lambda>x y. 0 \<le> ?lc (hitDice x) (hitDice y)) ordered"
      using l by (simp add: ordered)
  qed
  show ?thesis
    by (rule conjI [OF positive conjI [OF null conjI [OF same conjI [OF len srt]]]])
qed

text \<open>
  C6 on a fighter (4 levels, 1 die used, d10) and wizard (2 levels, none used, d6),
  smallest first: for 3 dice, 2 from the wizard and 1 from the fighter; for the \<^verbatim>\<open>null\<close>
  amount, with 5 dice at hand and 1 asked for by the test, nothing is charged.
\<close>

theorem hit_dice_consumption_witness:
  "consume surge = Some \<lparr>consume_type = ''hitDice'', consume_target = ''smallest'',
                           consume_amount = Some 3\<rparr> \<and>
   (0::int) < 3 \<and> (3::int) \<le> 5 \<and>
   sum_list (map (\<lambda>cls. class_levels cls - hitDiceUsed cls) (classes veteran)) = 5 \<and>
   js_sort (hitDiceOrder plainHost ''smallest'') (classes veteran) = [wizard, fighter] \<and>
   js_sort (hitDiceOrder plainHost ''smallest'') [wizard, fighter] = [wizard, fighter] \<and>
   js_sort (hitDiceOrder plainHost ''largest'') [wizard, fighter] = [fighter, wizard] \<and>
   sorted_wrt (\<lambda>x y. localeCompareNumeric plainHost (hitDice x) (hitDice y) \<le> 0)
     [wizard, fighter] \<and>
   hitDiceDeltas 3 [wizard, fighter] = [(wizard, 2), (fighter, 1)] \<and>
   sum_list (map snd (hitDiceDeltas 3 [wizard, fighter])) = 3 \<and>
   handleConsumeResource plainHost surge (Some veteran) emptyBuckets
     = Updates (emptyBuckets\<lparr>resourceUpdates :=
         [ [(''_id'', StrV ''wizard''), (''system.hitDiceUsed'', NumV 2)],
          [(''_id'', StrV ''fighter''), (''system.hitDiceUsed'', NumV 2)] ]\<rparr>) \<and>
   consume surgeDefault = Some \<lparr>consume_type = ''hitDice'', consume_target = ''smallest'',
                                  consume_amount = None\<rparr> \<and>
   0 \<le> hitDiceUsed fighter \<and> 0 \<le> hitDiceUsed wizard \<and>
   identifyResource (Some veteran)
       \<lparr>consume_type = ''hitDice'', consume_target = ''smallest'', consume_amount = None\<rparr>
     = Inr (Classes [fighter, wizard], 1, 5) \<and>
   handleConsumeResource plainHost surgeDefault (Some veteran) emptyBuckets = Updates emptyBuckets"
proof -
  let ?c = "\<lparr>consume_type = ''hitDice'', consume_target = ''smallest'', consume_amount = Some 3\<rparr>"
  let ?d = "\<lparr>consume_type = ''hitDice'', consume_target = ''smallest'', consume_amount = None\<rparr>"
  have c: "consume surge = Some ?c" by (simp add: surge_def blankItem_def)
  have d: "consume surgeDefault = Some ?d" by (simp add: surgeDefault_def blankItem_def)
  have cs: "classes veteran = [fighter, wizard]" by (simp add: veteran_def blankActor_def)
  have pool: "[fighter, wizard] =
      filter (\<lambda>cls. ''smallest'' = ''smallest'' \<or> ''smallest'' = ''largest'' \<or>
                     hitDice cls = ''smallest'') (classes veteran)"
    by (simp add: cs)
  have fw: "hitDiceOrder plainHost ''smallest'' fighter wizard = 4"
    and wf: "hitDiceOrder plainHost ''smallest'' wizard fighter = - 4"
    and lwf: "hitDiceOrder plainHost ''largest'' wizard fighter = 4"
    by code_simp+
  have srt: "js_sort (hitDiceOrder plainHost ''smallest'') [fighter, wizard] = [wizard, fighter]"
    by (simp add: fw)
  have srt2: "js_sort (hitDiceOrder plainHost ''smallest'') [wizard, fighter] = [wizard, fighter]"
    by (simp add: wf)
  have srt3: "js_sort (hitDiceOrder plainHost ''largest'') [wizard, fighter] = [fighter, wizard]"
    by (simp add: lwf)
  have ordered: "[wizard, fighter] =
      (if ''smallest'' = ''smallest'' \<or> ''smallest'' = ''largest''
       then js_sort (hitDiceOrder plainHost ''smallest'') [fighter, wizard] else [fighter, wizard])"
    by (simp add: fw)
  have agg: "5 = sum_list (map (\<lambda>cls. class_levels cls - hitDiceUsed cls) [fighter, wizard])"
    by (simp add: fighter_def wizard_def)
  have used: "\<forall>cls \<in> set [fighter, wizard]. 0 \<le> hitDiceUsed cls"
    by (simp add: fighter_def wizard_def)
  have deltas: "hitDiceDeltas 3 [wizard, fighter] = [(wizard, 2), (fighter, 1)]"
    by (simp add: fighter_def wizard_def Let_def)
  have ups: "map hitDiceUpdate [(wizard, 2), (fighter, 1)] =
         [ [(''_id'', StrV ''wizard''), (''system.hitDiceUsed'', NumV 2)],
          [(''_id'', StrV ''fighter''), (''system.hitDiceUsed'', NumV 2)] ]"
    by (simp add: hitDiceUpdate_def fighter_def wizard_def)
  have ty: "consume_type ?c = ''hitDice''" and tg: "consume_target ?c = ''smallest''"
    and tyd: "consume_type ?d = ''hitDice''" and tgd: "consume_target ?d = ''smallest''"
    and ne: "''smallest'' \<noteq> []"
    by simp_all
  have sym: "\<forall>x y. localeCompareNumeric plainHost x y < 0 \<longleftrightarrow> 0 < localeCompareNumeric plainHost y x"
    and tr: "\<forall>x y z. localeCompareNumeric plainHost x y \<le> 0 \<and> localeCompareNumeric plainHost y z \<le> 0
                \<longrightarrow> localeCompareNumeric plainHost x z \<le> 0"
    by (simp_all add: plainHost_def compareFaces_def)
  note T = hit_dice_consumption [OF c ty tg ne refl pool ordered agg,
      where u = emptyBuckets and n = 3]
  note N = hit_dice_consumption [OF d tyd tgd ne refl pool ordered agg,
      where u = emptyBuckets and n = 3]
  from T [THEN conjunct1] have run: "handleConsumeResource plainHost surge (Some veteran) emptyBuckets =
          Updates (emptyBuckets\<lparr>resourceUpdates := resourceUpdates emptyBuckets @
             map hitDiceUpdate (hitDiceDeltas 3 [wizard, fighter])\<rparr>)"
    and tot: "sum_list (map snd (hitDiceDeltas 3 [wizard, fighter])) = 3"
    by simp_all
  from mp [OF T [THEN conjunct2, THEN conjunct2, THEN conjunct2, THEN conjunct2]
             conjI [OF sym tr]]
  have sorted:
    "sorted_wrt (\<lambda>x y. localeCompareNumeric plainHost (hitDice x) (hitDice y) \<le> 0)
       [wizard, fighter]"
    by simp
  from N [THEN conjunct2, THEN conjunct1] used have uncharged:
    "handleConsumeResource plainHost surgeDefault (Some veteran) emptyBuckets = Updates emptyBuckets"
    by simp
  have ident: "identifyResource (Some veteran) ?d = Inr (Classes [fighter, wizard], 1, 5)"
    by (simp add: identifyResource_def cs fighter_def wizard_def)
  have run': "handleConsumeResource plainHost surge (Some veteran) emptyBuckets
     = Updates (emptyBuckets\<lparr>resourceUpdates :=
         [ [(''_id'', StrV ''wizard''), (''system.hitDiceUsed'', NumV 2)],
          [(''_id'', StrV ''fighter''), (''system.hitDiceUsed'', NumV 2)] ]\<rparr>)"
    using run deltas ups by (simp add: emptyBuckets_def)
  have a5: "sum_list (map (\<lambda>cls. class_levels cls - hitDiceUsed cls) (classes veteran)) = 5"
    using agg cs by simp
  have s1: "js_sort (hitDiceOrder plainHost ''smallest'') (classes veteran) = [wizard, fighter]"
    using srt cs by simp
  have u1: "0 \<le> hitDiceUsed fighter" and u2: "0 \<le> hitDiceUsed wizard"
    using used by simp_all
  have three: "(0::int) < 3" "(3::int) \<le> 5" by simp_all
  show ?thesis
    by (intro conjI) (rule c three a5 s1 srt2 srt3 sorted deltas tot run' d u1 u2 ident uncharged)+
qed

section \<open>Critical threshold\<close>



section \<open>Advancement index\<close>

lemma pushLevels_in_bucket:
  "pushLevels a ls bl = Inr bl' \<Longrightarrow>
     in_bucket bl' l x \<longleftrightarrow> in_bucket bl l x \<or> (x = a \<and> l \<in> set ls)"
proof (induction ls arbitrary: bl)
  case Nil
  then show ?case by simp
next
  case (Cons l0 ls)
  from Cons.prems obtain xs where xs: "bl l0 = Some xs"
    and rest: "pushLevels a ls (bl(l0 \<mapsto> xs @ [a])) = Inr bl'"
    by (auto split: option.splits)
  have step: "in_bucket (bl(l0 \<mapsto> xs @ [a])) l x \<longleftrightarrow> in_bucket bl l x \<or> (x = a \<and> l = l0)"
    using xs by (auto simp: in_bucket_def)
  have "in_bucket bl' l x \<longleftrightarrow> in_bucket (bl(l0 \<mapsto> xs @ [a])) l x \<or> (x = a \<and> l \<in> set ls)"
    by (rule Cons.IH [OF rest])
  then show ?case unfolding step by auto
qed

lemma pushLevels_returns:
  "\<forall>l \<in> set ls. bl l \<noteq> None \<Longrightarrow> \<exists>bl'. pushLevels a ls bl = Inr bl' \<and> dom bl' = dom bl"
proof (induction ls arbitrary: bl)
  case Nil
  then show ?case by simp
next
  case (Cons l0 ls)
  then obtain xs where xs: "bl l0 = Some xs" by auto
  have "\<forall>l \<in> set ls. (bl(l0 \<mapsto> xs @ [a])) l \<noteq> None"
    using Cons.prems by simp
  from Cons.IH [OF this] obtain bl' where
    "pushLevels a ls (bl(l0 \<mapsto> xs @ [a])) = Inr bl'" "dom bl' = dom (bl(l0 \<mapsto> xs @ [a]))"
    by blast
  with xs show ?case by (auto simp: domI insert_absorb)
qed

lemma indexAdvancement_in_bucket:
  assumes "indexAdvancement idx entry = Inr idx'"
  shows "(in_bucket (byLevel idx') l x \<longleftrightarrow>
           in_bucket (byLevel idx) l x \<or> (entry = IsAdvancement x \<and> l \<in> set (levels x))) \<and>
         (x \<in> set (needingConfiguration idx') \<longleftrightarrow>
           x \<in> set (needingConfiguration idx) \<or> (entry = IsAdvancement x \<and> levels x = []))"
  using assms pushLevels_in_bucket [of _ _ "byLevel idx" _ l x]
  by (auto simp: indexAdvancement_def split: stored_advancement.splits sum.splits if_splits)

lemma indexAll_in_bucket:
  "indexAll idx entries = Inr idx' \<Longrightarrow>
     (in_bucket (byLevel idx') l x \<longleftrightarrow>
        in_bucket (byLevel idx) l x \<or> (IsAdvancement x \<in> set entries \<and> l \<in> set (levels x))) \<and>
     (x \<in> set (needingConfiguration idx') \<longleftrightarrow>
        x \<in> set (needingConfiguration idx) \<or> (IsAdvancement x \<in> set entries \<and> levels x = []))"
proof (induction entries arbitrary: idx)
  case Nil
  then show ?case by simp
next
  case (Cons entry rest)
  from Cons.prems obtain mid where mid: "indexAdvancement idx entry = Inr mid"
    and rest: "indexAll mid rest = Inr idx'"
    by (auto split: sum.splits)
  from Cons.IH [OF rest] indexAdvancement_in_bucket [OF mid, of l x]
  show ?case by auto
qed

lemma indexAdvancement_returns:
  assumes "\<forall>x l. entry = IsAdvancement x \<and> l \<in> set (levels x) \<longrightarrow> byLevel idx l \<noteq> None"
  shows "\<exists>idx'. indexAdvancement idx entry = Inr idx' \<and> dom (byLevel idx') = dom (byLevel idx)"
proof (cases entry)
  case NotAdvancement
  then show ?thesis by (simp add: indexAdvancement_def)
next
  case (IsAdvancement a)
  with assms have "\<forall>l \<in> set (levels a). byLevel idx l \<noteq> None" by simp
  from pushLevels_returns [OF this, of a] IsAdvancement show ?thesis
    by (auto simp: indexAdvancement_def)
qed

lemma indexAll_returns:
  "\<forall>x l. IsAdvancement x \<in> set entries \<and> l \<in> set (levels x) \<longrightarrow> l \<in> dom (byLevel idx) \<Longrightarrow>
     \<exists>idx'. indexAll idx entries = Inr idx'"
proof (induction entries arbitrary: idx)
  case Nil
  then show ?case by simp
next
  case (Cons entry rest)
  have "\<forall>x l. entry = IsAdvancement x \<and> l \<in> set (levels x) \<longrightarrow> byLevel idx l \<noteq> None"
    using Cons.prems by auto
  from indexAdvancement_returns [OF this] obtain mid where
    mid: "indexAdvancement idx entry = Inr mid" "dom (byLevel mid) = dom (byLevel idx)"
    by blast
  have "\<forall>x l. IsAdvancement x \<in> set rest \<and> l \<in> set (levels x) \<longrightarrow> l \<in> dom (byLevel mid)"
    using Cons.prems mid(2) by auto
  from Cons.IH [OF this] mid(1) show ?case by auto
qed

lemma prepareAdvancement_returns:
  assumes "\<forall>x l. IsAdvancement x \<in> set (nullish (system_advancement this) []) \<and>
                  l \<in> set (levels x) \<longrightarrow> minAdvancementLevel this \<le> l \<and> l \<le> maxLevel h"
  shows "\<exists>idx. prepareAdvancement h sortingValue this = Inr idx"
proof -
  let ?start = "\<lparr>byId = Map.empty,
                  byLevel = (\<lambda>l. if minAdvancementLevel this \<le> l \<and> l \<le> maxLevel h
                                  then Some [] else None),
                  byType = Map.empty, needingConfiguration = []\<rparr>"
  have "\<forall>x l. IsAdvancement x \<in> set (nullish (system_advancement this) []) \<and>
               l \<in> set (levels x) \<longrightarrow> l \<in> dom (byLevel ?start)"
    using assms by (auto simp: dom_def)
  from indexAll_returns [OF this] obtain idx where
    "indexAll ?start (nullish (system_advancement this) []) = Inr idx" by blast
  then show ?thesis by (simp add: prepareAdvancement_def Let_def)
qed

text \<open>
  Claim C8. After the index is built, an advancement is in the bucket of a level
  exactly when it is a valid stored advancement with that level, and in
  \<^verbatim>\<open>needingConfiguration\<close> exactly when it is valid and has no level. So one with levels
  3 and 5 is in the buckets 3 and 5 and in no other, and one without levels is in
  \<^verbatim>\<open>needingConfiguration\<close> and in no bucket.
\<close>

theorem advancement_level_buckets:
  assumes "prepareAdvancement h sortingValue this = Inr idx"
    and "entries = nullish (system_advancement this) []"
  shows "(in_bucket (byLevel idx) l x \<longleftrightarrow> IsAdvancement x \<in> set entries \<and> l \<in> set (levels x)) \<and>
         (x \<in> set (needingConfiguration idx) \<longleftrightarrow> IsAdvancement x \<in> set entries \<and> levels x = []) \<and>
         (IsAdvancement x \<in> set entries \<and> set (levels x) = {3, 5} \<longrightarrow>
            in_bucket (byLevel idx) 3 x \<and> in_bucket (byLevel idx) 5 x \<and>
            (\<forall>k. k \<noteq> 3 \<and> k \<noteq> 5 \<longrightarrow> \<not> in_bucket (byLevel idx) k x) \<and>
            x \<notin> set (needingConfiguration idx)) \<and>
         (IsAdvancement x \<in> set entries \<and> levels x = [] \<longrightarrow>
            x \<in> set (needingConfiguration idx) \<and> (\<forall>k. \<not> in_bucket (byLevel idx) k x))"
proof -
  let ?start = "\<lparr>byId = Map.empty,
                  byLevel = (\<lambda>l. if minAdvancementLevel this \<le> l \<and> l \<le> maxLevel h
                                  then Some [] else None),
                  byType = Map.empty, needingConfiguration = []\<rparr>"
  from assms(1) obtain raw where raw: "indexAll ?start entries = Inr raw"
    and idx: "idx = raw\<lparr>byLevel := (\<lambda>lvl.
                    map_option
                      (js_sort (\<lambda>a b. localeCompare h (sortingValue a lvl) (sortingValue b lvl)))
                      (byLevel raw lvl))\<rparr>"
    unfolding assms(2) by (auto simp: prepareAdvancement_def Let_def split: sum.splits)
  have sorted: "in_bucket (byLevel idx) k y = in_bucket (byLevel raw) k y" for k y
    unfolding idx by (cases "byLevel raw k") (simp_all add: in_bucket_def set_js_sort)
  have nc: "needingConfiguration idx = needingConfiguration raw"
    unfolding idx by simp
  have start: "\<not> in_bucket (byLevel ?start) k y" for k y
    by (simp add: in_bucket_def)
  have b: "in_bucket (byLevel idx) k y \<longleftrightarrow> IsAdvancement y \<in> set entries \<and> k \<in> set (levels y)"
    for k y
    using indexAll_in_bucket [OF raw, of k y] start [of k y] sorted [of k y] by simp
  have c: "y \<in> set (needingConfiguration idx) \<longleftrightarrow> IsAdvancement y \<in> set entries \<and> levels y = []"
    for y
    using indexAll_in_bucket [OF raw, of 0 y] nc by simp
  show ?thesis
    unfolding b c by auto
qed

text \<open>C8 on a class item with an advancement at levels 3 and 5 and one without levels.\<close>

theorem advancement_level_buckets_witness:
  "\<exists>idx. prepareAdvancement plainHost (\<lambda>a lvl. adv_id a) scholar = Inr idx \<and>
     IsAdvancement grantAt3And5 \<in> set (nullish (system_advancement scholar) []) \<and>
     set (levels grantAt3And5) = {3, 5} \<and>
     in_bucket (byLevel idx) 3 grantAt3And5 \<and> in_bucket (byLevel idx) 5 grantAt3And5 \<and>
     \<not> in_bucket (byLevel idx) 4 grantAt3And5 \<and>
     grantAt3And5 \<notin> set (needingConfiguration idx) \<and>
     IsAdvancement unconfigured \<in> set (nullish (system_advancement scholar) []) \<and>
     levels unconfigured = [] \<and>
     unconfigured \<in> set (needingConfiguration idx) \<and>
     \<not> in_bucket (byLevel idx) 3 unconfigured"
proof -
  have entries: "nullish (system_advancement scholar) []
      = [IsAdvancement grantAt3And5, NotAdvancement, IsAdvancement unconfigured]"
    by (simp add: scholar_def blankItem_def)
  have lv: "levels grantAt3And5 = [3, 5]" "levels unconfigured = []"
    by (simp_all add: grantAt3And5_def unconfigured_def)
  have range: "\<forall>x l. IsAdvancement x \<in> set (nullish (system_advancement scholar) []) \<and>
                  l \<in> set (levels x) \<longrightarrow>
                  minAdvancementLevel scholar \<le> l \<and> l \<le> maxLevel plainHost"
    unfolding entries
    by (auto simp: lv minAdvancementLevel_def scholar_def blankItem_def plainHost_def)
  from prepareAdvancement_returns [OF range, of "\<lambda>a lvl. adv_id a"] obtain idx where
    idx: "prepareAdvancement plainHost (\<lambda>a lvl. adv_id a) scholar = Inr idx" by blast
  have g: "IsAdvancement grantAt3And5 \<in> set (nullish (system_advancement scholar) [])"
    and u: "IsAdvancement unconfigured \<in> set (nullish (system_advancement scholar) [])"
    unfolding entries by simp_all
  have s: "set (levels grantAt3And5) = {3, 5}" by (simp add: lv)
  from advancement_level_buckets [OF idx refl, of _ grantAt3And5] g s lv(1)
  have a: "in_bucket (byLevel idx) 3 grantAt3And5 \<and> in_bucket (byLevel idx) 5 grantAt3And5 \<and>
           \<not> in_bucket (byLevel idx) 4 grantAt3And5 \<and>
           grantAt3And5 \<notin> set (needingConfiguration idx)"
    by simp
  from advancement_level_buckets [OF idx refl, of _ unconfigured] u lv(2)
  have b: "unconfigured \<in> set (needingConfiguration idx) \<and>
           \<not> in_bucket (byLevel idx) 3 unconfigured"
    by simp
  from idx g s a u lv(2) b show ?thesis by blast
qed

end
